theory Spec2Isabelle
  imports Main "HOL-Library.AList" "HOL-Library.Multiset" "HOL-Library.Sublist"
begin

section \<open>The language runtime bridge of mainThreadLanguageRuntime.ts\<close>

text \<open>
  The development embeds the three classes of
  \<^verbatim>\<open>src/vs/workbench/api/browser/positron/mainThreadLanguageRuntime.ts\<close>:
  \<^verbatim>\<open>ExtHostRuntimeClientInstance\<close> (one comm), \<^verbatim>\<open>ExtHostLanguageRuntimeAdapter\<close>
  (one runtime session with its Lamport clock, event queue and comm map) and
  \<^verbatim>\<open>MainThreadLanguageRuntime\<close> (the table of sessions by handle).

  Objects are values of record types. Client instances are shared between the
  adapter's map and whoever received them from \<^verbatim>\<open>createClient\<close>, so they live in an
  explicit store: a list of instances addressed by index. Everything a method does
  besides changing fields (firing an emitter, calling the extension host proxy,
  logging) is appended to a trace kept in the state.
\<close>

subsection \<open>Enumerations\<close>

text \<open>
  Modelled from the spec: the enum \<^verbatim>\<open>RuntimeState\<close> is declared in
  \<^verbatim>\<open>languageRuntimeService\<close>, which is not part of the sources at hand. The members
  are the states of the session state machine; the file itself names
  \<^verbatim>\<open>Uninitialized\<close>, \<^verbatim>\<open>Interrupting\<close>, \<^verbatim>\<open>Restarting\<close>, \<^verbatim>\<open>Exiting\<close> and \<^verbatim>\<open>Exited\<close>.
\<close>

datatype RuntimeState =
  Uninitialized | Starting | Ready | Busy | Interrupting | Restarting | Exiting | Exited

text \<open>
  Modelled from the spec: the enum \<^verbatim>\<open>RuntimeClientState\<close> is declared in
  \<^verbatim>\<open>languageRuntimeClientInstance\<close>, which is not part of the sources at hand. Its
  \<^verbatim>\<open>Uninitialized\<close> member is written \<open>ClientUninitialized\<close> here.
\<close>

datatype RuntimeClientState =
  ClientUninitialized | Opening | Connected | Closing | Closed

text \<open>
  The members of \<^verbatim>\<open>LanguageRuntimeMessageType\<close> are the nine cases of the switch in
  \<^verbatim>\<open>processMessage\<close>.
\<close>

datatype LanguageRuntimeMessageType =
  Stream | Output | Input | Error | Prompt | State | CommOpen | CommData | CommClosed

subsection \<open>Messages and queued events\<close>

text \<open>
  \<^verbatim>\<open>ILanguageRuntimeMessage\<close> and the interfaces extending it, with the fields the
  file reads. Payloads are kept as their JSON text. A field the message does not
  carry reads as \<^verbatim>\<open>undefined\<close> in the source; for \<open>parent_id\<close>, the only field
  tested for truthiness, the empty string stands for it (both are falsy).
\<close>

record ILanguageRuntimeMessage =
  m_type :: LanguageRuntimeMessageType
  event_clock :: int
  comm_id :: string
  target_name :: string
  parent_id :: string
  m_data :: string

datatype QueuedRuntimeEvent =
  QueuedRuntimeMessageEvent int ILanguageRuntimeMessage
| QueuedRuntimeStateEvent int RuntimeState

fun clock :: "QueuedRuntimeEvent \<Rightarrow> int" where
  "clock (QueuedRuntimeMessageEvent c m) = c"
| "clock (QueuedRuntimeStateEvent c st) = c"

subsection \<open>Traces\<close>

text \<open>Calls made on the extension host proxy, with their arguments.\<close>

datatype ProxyCall =
  ProxyRemoveClient int string
| ProxyCreateClient int string string string
| ProxySendClientMessage int string string string
| ProxyInterruptLanguageRuntime int
| ProxyRestartLanguageRuntime int
| ProxyShutdownLanguageRuntime int

text \<open>
  Log lines. The source formats them into text; here each line keeps the level, the
  template it comes from and the values interpolated into it.
\<close>

datatype LogLevel = LogInfo | LogWarn | LogError

datatype LogMessage =
  EmittingAnyway QueuedRuntimeEvent int int
| Deferring QueuedRuntimeEvent int int
| ProcessingAfterTimeout
| ProcessingEvents "QueuedRuntimeEvent list"
| ClientNotFoundDroppingMessage string ILanguageRuntimeMessage
| ClientNotFoundDroppingState string RuntimeClientState
| CreatingClient string string
| ClosedBeforeCreated string string
| FailedToCreateClient string string string
| IgnoringUnknownClientType string string

text \<open>Values fired on the adapter's emitters; a created client is named by its address.\<close>

datatype AdapterEvent =
  DidChangeRuntimeState RuntimeState
| DidReceiveRuntimeMessageOutput ILanguageRuntimeMessage
| DidReceiveRuntimeMessageStream ILanguageRuntimeMessage
| DidReceiveRuntimeMessageInput ILanguageRuntimeMessage
| DidReceiveRuntimeMessageError ILanguageRuntimeMessage
| DidReceiveRuntimeMessagePrompt ILanguageRuntimeMessage
| DidReceiveRuntimeMessageState ILanguageRuntimeMessage
| DidCreateClientInstance nat ILanguageRuntimeMessage

subsection \<open>Deferred promises\<close>

text \<open>
  Modelled from the spec: the class \<^verbatim>\<open>DeferredPromise\<close> of \<^verbatim>\<open>vs/base/common/async\<close> is
  not part of the sources at hand. The spec calls it a single-resolution promise
  with at-most-once settlement: the first \<^verbatim>\<open>complete\<close> or \<^verbatim>\<open>error\<close> decides what the
  promise \<^verbatim>\<open>p\<close> settles with, later calls change nothing, and \<^verbatim>\<open>isSettled\<close> tells
  whether one happened.
\<close>

datatype RpcError =
  RpcTimedOut string
| RuntimeExitedBeforeRpcCompleted

datatype Settlement = Resolved string | Rejected RpcError

type_synonym DeferredPromise = "Settlement option"

definition isSettled :: "DeferredPromise \<Rightarrow> bool" where
  "isSettled p = (p \<noteq> None)"

definition complete :: "DeferredPromise \<Rightarrow> string \<Rightarrow> DeferredPromise" where
  "complete p v = (case p of None \<Rightarrow> Some (Resolved v) | Some x \<Rightarrow> Some x)"

definition error :: "DeferredPromise \<Rightarrow> RpcError \<Rightarrow> DeferredPromise" where
  "error p e = (case p of None \<Rightarrow> Some (Rejected e) | Some x \<Rightarrow> Some x)"

subsection \<open>ExtHostRuntimeClientInstance\<close>

text \<open>
  The fields \<^verbatim>\<open>_id\<close>, \<^verbatim>\<open>_type\<close>, \<^verbatim>\<open>_handle\<close>, \<^verbatim>\<open>_state\<close> and \<^verbatim>\<open>_pendingRpcs\<close> of the
  class. \<^verbatim>\<open>_pendingRpcs\<close> is a JavaScript \<^verbatim>\<open>Map\<close>, an association list in insertion
  order; it maps a message id to a promise object, and the promise objects created
  by this instance are the entries of \<open>c_promises\<close>, addressed by index, because the
  timeout callback of \<^verbatim>\<open>performRpc\<close> holds on to its promise after the map entry is
  gone. \<open>c_stateFired\<close> and \<open>c_dataFired\<close> are what the two emitters have fired,
  \<open>c_proxyCalls\<close> the calls this instance made on the proxy, \<open>c_disposed\<close> the flag
  of the \<^verbatim>\<open>Disposable\<close> base class.
\<close>

record ExtHostRuntimeClientInstance =
  c_id :: string
  c_type :: string
  c_handle :: int
  c_state :: RuntimeClientState
  c_pendingRpcs :: "(string \<times> nat) list"
  c_promises :: "DeferredPromise list"
  c_stateFired :: "RuntimeClientState list"
  c_dataFired :: "string list"
  c_proxyCalls :: "ProxyCall list"
  c_disposed :: bool

text \<open>The constructor.\<close>

definition new_client :: "string \<Rightarrow> string \<Rightarrow> int \<Rightarrow> ExtHostRuntimeClientInstance" where
  "new_client ident ty h =
     \<lparr> c_id = ident, c_type = ty, c_handle = h, c_state = ClientUninitialized,
       c_pendingRpcs = [], c_promises = [], c_stateFired = [], c_dataFired = [],
       c_proxyCalls = [], c_disposed = False \<rparr>"

text \<open>
  Modelled from the spec: the class \<^verbatim>\<open>Emitter\<close> of \<^verbatim>\<open>vs/base/common/event\<close> is not part
  of the sources at hand. Firing a value hands it to the subscribers, recorded in
  the trace, and to the listener the constructor registered, which stores it in
  \<^verbatim>\<open>_state\<close>. The spec has \<^verbatim>\<open>dispose\<close> emit \<^verbatim>\<open>Closing\<close> and \<^verbatim>\<open>Closed\<close> after the base
  class was disposed, so firing is not made to depend on \<open>c_disposed\<close>.
\<close>

definition client_stateEmitter_fire ::
  "ExtHostRuntimeClientInstance \<Rightarrow> RuntimeClientState \<Rightarrow> ExtHostRuntimeClientInstance" where
  "client_stateEmitter_fire c st = c\<lparr> c_stateFired := c_stateFired c @ [st], c_state := st \<rparr>"

definition setClientState ::
  "ExtHostRuntimeClientInstance \<Rightarrow> RuntimeClientState \<Rightarrow> ExtHostRuntimeClientInstance" where
  "setClientState c st = client_stateEmitter_fire c st"

definition getClientState :: "ExtHostRuntimeClientInstance \<Rightarrow> RuntimeClientState" where
  "getClientState c = c_state c"

text \<open>
  \<^verbatim>\<open>performRpc\<close>. The id from \<^verbatim>\<open>generateUuid()\<close> is an argument. The promise is
  allocated at the end of \<open>c_promises\<close>; the result is the instance and the address
  of the promise handed to the caller. The body of the \<^verbatim>\<open>setTimeout\<close> callback is
  \<open>performRpc_timeout\<close>, run by the scheduler five seconds later with the promise,
  the id and the request it closed over.
\<close>

definition performRpc ::
  "ExtHostRuntimeClientInstance \<Rightarrow> string \<Rightarrow> string \<Rightarrow> ExtHostRuntimeClientInstance \<times> nat" where
  "performRpc c messageId request =
     (let promise = length (c_promises c) in
      (c\<lparr> c_promises := c_promises c @ [None],
          c_pendingRpcs := AList.update messageId promise (c_pendingRpcs c),
          c_proxyCalls := c_proxyCalls c @
             [ProxySendClientMessage (c_handle c) (c_id c) messageId request] \<rparr>,
       promise))"

definition performRpc_timeout ::
  "ExtHostRuntimeClientInstance \<Rightarrow> nat \<Rightarrow> string \<Rightarrow> string \<Rightarrow> ExtHostRuntimeClientInstance" where
  "performRpc_timeout c promise messageId request =
     (if isSettled (c_promises c ! promise) then c
      else c\<lparr> c_promises := (c_promises c)[promise :=
                 error (c_promises c ! promise) (RpcTimedOut request)],
              c_pendingRpcs := AList.delete messageId (c_pendingRpcs c) \<rparr>)"

definition sendMessage ::
  "ExtHostRuntimeClientInstance \<Rightarrow> string \<Rightarrow> string \<Rightarrow> ExtHostRuntimeClientInstance" where
  "sendMessage c messageId message =
     c\<lparr> c_proxyCalls := c_proxyCalls c @
          [ProxySendClientMessage (c_handle c) (c_id c) messageId message] \<rparr>"

definition emitData ::
  "ExtHostRuntimeClientInstance \<Rightarrow> ILanguageRuntimeMessage \<Rightarrow> ExtHostRuntimeClientInstance" where
  "emitData c message =
     (case (if parent_id message \<noteq> [] then map_of (c_pendingRpcs c) (parent_id message)
            else None) of
        Some promise \<Rightarrow>
          c\<lparr> c_promises := (c_promises c)[promise :=
                complete (c_promises c ! promise) (m_data message)],
             c_pendingRpcs := AList.delete (parent_id message) (c_pendingRpcs c) \<rparr>
      | None \<Rightarrow> c\<lparr> c_dataFired := c_dataFired c @ [m_data message] \<rparr>)"

text \<open>
  \<^verbatim>\<open>dispose\<close>: the base class is disposed, every promise in \<^verbatim>\<open>_pendingRpcs.values()\<close>
  is rejected, and an instance that is not closed fires its last state changes.
\<close>

definition cancelPendingRpcs ::
  "ExtHostRuntimeClientInstance \<Rightarrow> ExtHostRuntimeClientInstance" where
  "cancelPendingRpcs c =
     c\<lparr> c_promises :=
          foldl (\<lambda>ps promise. ps[promise := error (ps ! promise) RuntimeExitedBeforeRpcCompleted])
            (c_promises c) (map snd (c_pendingRpcs c)) \<rparr>"

definition dispose :: "ExtHostRuntimeClientInstance \<Rightarrow> ExtHostRuntimeClientInstance" where
  "dispose c =
     (let c1 = cancelPendingRpcs (c\<lparr> c_disposed := True \<rparr>) in
      if c_state c1 \<noteq> Closed then
        (let c2 = (if c_state c1 = Connected
                   then (client_stateEmitter_fire c1 Closing)
                          \<lparr> c_proxyCalls := c_proxyCalls c1 @ [ProxyRemoveClient (c_handle c1) (c_id c1)] \<rparr>
                   else c1)
         in client_stateEmitter_fire c2 Closed)
      else c1)"

subsection \<open>ExtHostLanguageRuntimeAdapter\<close>

text \<open>
  The fields of the class: the handle, the two entries of the metadata the file
  reads, \<^verbatim>\<open>_currentState\<close>, the map \<^verbatim>\<open>_clients\<close> (insertion ordered, from comm id to
  the address of the instance), \<^verbatim>\<open>_eventClock\<close>, \<^verbatim>\<open>_eventQueue\<close> and
  \<^verbatim>\<open>_eventQueueTimer\<close> (whether a timer is armed). \<open>heap\<close> is the store of the client
  instances created so far. \<open>fired\<close>, \<open>logged\<close> and \<open>proxyCalls\<close> are the traces of
  the adapter's emitters, of the log service and of its calls on the proxy.
  \<open>delivered\<close> is a history variable: the queued events in the order in which they
  were handed on, to \<^verbatim>\<open>processMessage\<close> or to the state emitter.
\<close>

record ExtHostLanguageRuntimeAdapter =
  handle :: int
  languageId :: string
  runtimeName :: string
  currentState :: RuntimeState
  clients :: "(string \<times> nat) list"
  eventClock :: int
  eventQueue :: "QueuedRuntimeEvent list"
  eventQueueTimer :: bool
  heap :: "ExtHostRuntimeClientInstance list"
  fired :: "AdapterEvent list"
  delivered :: "QueuedRuntimeEvent list"
  logged :: "(LogLevel \<times> LogMessage) list"
  proxyCalls :: "ProxyCall list"

text \<open>A method call on the instance at address \<open>r\<close> of the store.\<close>

definition onClient ::
  "ExtHostLanguageRuntimeAdapter \<Rightarrow> nat \<Rightarrow>
   (ExtHostRuntimeClientInstance \<Rightarrow> ExtHostRuntimeClientInstance) \<Rightarrow> ExtHostLanguageRuntimeAdapter" where
  "onClient s r f = s\<lparr> heap := (heap s)[r := f (heap s ! r)] \<rparr>"

definition logService ::
  "ExtHostLanguageRuntimeAdapter \<Rightarrow> LogLevel \<Rightarrow> LogMessage \<Rightarrow> ExtHostLanguageRuntimeAdapter" where
  "logService s lvl msg = s\<lparr> logged := logged s @ [(lvl, msg)] \<rparr>"

text \<open>
  The listener the constructor puts on \<^verbatim>\<open>onDidChangeRuntimeState\<close>: it records the
  state, and on \<^verbatim>\<open>Exited\<close> walks \<^verbatim>\<open>_clients.values()\<close>, closes the instances that
  are connected, and clears the map.
\<close>

definition closeIfConnected ::
  "ExtHostLanguageRuntimeAdapter \<Rightarrow> nat \<Rightarrow> ExtHostLanguageRuntimeAdapter" where
  "closeIfConnected s r =
     (if getClientState (heap s ! r) = Connected
      then onClient s r (\<lambda>c. dispose (setClientState (setClientState c Closing) Closed))
      else s)"

definition onDidChangeRuntimeState ::
  "ExtHostLanguageRuntimeAdapter \<Rightarrow> RuntimeState \<Rightarrow> ExtHostLanguageRuntimeAdapter" where
  "onDidChangeRuntimeState s st =
     (let s1 = s\<lparr> currentState := st \<rparr> in
      if st = Exited
      then (foldl closeIfConnected s1 (map snd (clients s1)))\<lparr> clients := [] \<rparr>
      else s1)"

definition adapter_stateEmitter_fire ::
  "ExtHostLanguageRuntimeAdapter \<Rightarrow> RuntimeState \<Rightarrow> ExtHostLanguageRuntimeAdapter" where
  "adapter_stateEmitter_fire s st =
     onDidChangeRuntimeState (s\<lparr> fired := fired s @ [DidChangeRuntimeState st] \<rparr>) st"

definition new_adapter :: "int \<Rightarrow> string \<Rightarrow> string \<Rightarrow> ExtHostLanguageRuntimeAdapter" where
  "new_adapter h lang name =
     \<lparr> handle = h, languageId = lang, runtimeName = name, currentState = Uninitialized,
       clients = [], eventClock = 0, eventQueue = [], eventQueueTimer = False,
       heap = [], fired = [], delivered = [], logged = [], proxyCalls = [] \<rparr>"

definition getRuntimeState :: "ExtHostLanguageRuntimeAdapter \<Rightarrow> RuntimeState" where
  "getRuntimeState s = currentState s"

definition emitDidReceiveClientMessage ::
  "ExtHostLanguageRuntimeAdapter \<Rightarrow> ILanguageRuntimeMessage \<Rightarrow> ExtHostLanguageRuntimeAdapter" where
  "emitDidReceiveClientMessage s message =
     (case map_of (clients s) (comm_id message) of
        Some client \<Rightarrow> onClient s client (\<lambda>c. emitData c message)
      | None \<Rightarrow> logService s LogWarn (ClientNotFoundDroppingMessage (comm_id message) message))"

text \<open>
  \<^verbatim>\<open>openClientInstance\<close>. The values of the enum \<^verbatim>\<open>RuntimeClientType\<close>, declared
  outside the sources at hand, are the parameter \<open>clientTypes\<close> of this and of every
  function that reaches it.
\<close>

definition openClientInstance ::
  "string list \<Rightarrow> ExtHostLanguageRuntimeAdapter \<Rightarrow> ILanguageRuntimeMessage \<Rightarrow>
   ExtHostLanguageRuntimeAdapter" where
  "openClientInstance clientTypes s message =
     (if target_name message \<notin> set clientTypes
      then s\<lparr> proxyCalls := proxyCalls s @ [ProxyRemoveClient (handle s) (comm_id message)] \<rparr>
      else
        (let client = length (heap s);
             s1 = s\<lparr> heap := heap s @ [new_client (comm_id message) (target_name message) (handle s)],
                     clients := AList.update (comm_id message) client (clients s) \<rparr>;
             s2 = onClient s1 client (\<lambda>c. setClientState c Connected)
         in s2\<lparr> fired := fired s2 @ [DidCreateClientInstance client message] \<rparr>))"

definition emitClientState ::
  "ExtHostLanguageRuntimeAdapter \<Rightarrow> string \<Rightarrow> RuntimeClientState \<Rightarrow> ExtHostLanguageRuntimeAdapter" where
  "emitClientState s ident st =
     (case map_of (clients s) ident of
        Some client \<Rightarrow> onClient s client (\<lambda>c. setClientState c st)
      | None \<Rightarrow> logService s LogWarn (ClientNotFoundDroppingState ident st))"

text \<open>
  \<^verbatim>\<open>generateClientId\<close>. The random number and the value of the static counter
  \<^verbatim>\<open>clientCounter\<close>, which belongs to the class and not to one adapter, are
  arguments; the counter comes back incremented.
\<close>

function toString :: "nat \<Rightarrow> nat \<Rightarrow> string" where
  "toString radix n =
     (if n < radix \<or> radix < 2 then [''0123456789abcdef'' ! n]
      else toString radix (n div radix) @ [''0123456789abcdef'' ! (n mod radix)])"
  by pat_completeness auto
termination
  by (relation "measure snd") auto

definition generateClientId :: "string \<Rightarrow> string \<Rightarrow> nat \<Rightarrow> nat \<Rightarrow> string \<times> nat" where
  "generateClientId lang clientType counter randomNumber =
     (let randomId = toString 16 randomNumber;
          nextId = counter;
          client = map (\<lambda>ch. if ch = CHR ''.'' then CHR ''-'' else ch) clientType
      in (client @ ''-'' @ lang @ ''-'' @ toString 10 nextId @ ''-'' @ randomId, counter + 1))"

text \<open>
  \<^verbatim>\<open>createClient\<close> up to its \<^verbatim>\<open>return\<close>: the new adapter, the address of the instance
  handed to the caller, and the static counter. The two callbacks on the promise of
  \<^verbatim>\<open>$createClient\<close> are \<open>createClient_then\<close> and \<open>createClient_catch\<close>; they close
  over the instance, whose \<^verbatim>\<open>_id\<close> is the id they use.
\<close>

definition createClient ::
  "ExtHostLanguageRuntimeAdapter \<Rightarrow> nat \<Rightarrow> string \<Rightarrow> string \<Rightarrow> nat \<Rightarrow>
   ExtHostLanguageRuntimeAdapter \<times> nat \<times> nat" where
  "createClient s counter ty params randomNumber =
     (let (ident, counter') = generateClientId (languageId s) ty counter randomNumber;
          client = length (heap s);
          s1 = s\<lparr> heap := heap s @ [new_client ident ty (handle s)],
                  clients := AList.update ident client (clients s) \<rparr>;
          s2 = logService s1 LogInfo (CreatingClient ty ident);
          s3 = onClient s2 client (\<lambda>c. setClientState c Opening);
          s4 = s3\<lparr> proxyCalls := proxyCalls s3 @ [ProxyCreateClient (handle s) ident ty params] \<rparr>
      in (s4, client, counter'))"

definition createClient_then ::
  "ExtHostLanguageRuntimeAdapter \<Rightarrow> nat \<Rightarrow> ExtHostLanguageRuntimeAdapter" where
  "createClient_then s client =
     (if getClientState (heap s ! client) = Opening
      then onClient s client (\<lambda>c. setClientState c Connected)
      else logService s LogWarn (ClosedBeforeCreated (c_id (heap s ! client)) (runtimeName s)))"

definition createClient_catch ::
  "ExtHostLanguageRuntimeAdapter \<Rightarrow> nat \<Rightarrow> string \<Rightarrow> ExtHostLanguageRuntimeAdapter" where
  "createClient_catch s client err =
     (let s1 = logService s LogError
                 (FailedToCreateClient (c_id (heap s ! client)) (runtimeName s) err);
          s2 = onClient s1 client (\<lambda>c. setClientState c Closed)
      in s2\<lparr> clients := AList.delete (c_id (heap s ! client)) (clients s2) \<rparr>)"

text \<open>
  The callback of \<^verbatim>\<open>listClients\<close> on the list the proxy returns, an object from
  client id to client type: it yields the adapter and the instances resolved.
\<close>

definition listClients_each ::
  "string list \<Rightarrow> ExtHostLanguageRuntimeAdapter \<times> nat list \<Rightarrow> string \<times> string \<Rightarrow>
   ExtHostLanguageRuntimeAdapter \<times> nat list" where
  "listClients_each clientTypes acc entry =
     (let (s, instances) = acc; (key, clientType) = entry in
      case map_of (clients s) key of
        Some inst \<Rightarrow> (s, instances @ [inst])
      | None \<Rightarrow>
          if clientType \<in> set clientTypes
          then (let client = length (heap s) in
                (s\<lparr> heap := heap s @ [setClientState (new_client key clientType (handle s)) Connected],
                    clients := AList.update key client (clients s) \<rparr>,
                 instances @ [client]))
          else (logService s LogWarn (IgnoringUnknownClientType clientType key), instances))"

definition listClients_then ::
  "string list \<Rightarrow> ExtHostLanguageRuntimeAdapter \<Rightarrow> (string \<times> string) list \<Rightarrow>
   ExtHostLanguageRuntimeAdapter \<times> nat list" where
  "listClients_then clientTypes s listed = foldl (listClients_each clientTypes) (s, []) listed"

definition interrupt :: "ExtHostLanguageRuntimeAdapter \<Rightarrow> ExtHostLanguageRuntimeAdapter" where
  "interrupt s =
     (let s1 = adapter_stateEmitter_fire s Interrupting
      in s1\<lparr> proxyCalls := proxyCalls s1 @ [ProxyInterruptLanguageRuntime (handle s1)] \<rparr>)"

definition restart :: "ExtHostLanguageRuntimeAdapter \<Rightarrow> ExtHostLanguageRuntimeAdapter" where
  "restart s =
     (let s1 = adapter_stateEmitter_fire s Restarting
      in s1\<lparr> proxyCalls := proxyCalls s1 @ [ProxyRestartLanguageRuntime (handle s1)] \<rparr>)"

definition shutdown :: "ExtHostLanguageRuntimeAdapter \<Rightarrow> ExtHostLanguageRuntimeAdapter" where
  "shutdown s =
     (let s1 = adapter_stateEmitter_fire s Exiting
      in s1\<lparr> proxyCalls := proxyCalls s1 @ [ProxyShutdownLanguageRuntime (handle s1)] \<rparr>)"

subsection \<open>The event queue\<close>

definition processMessage ::
  "string list \<Rightarrow> ExtHostLanguageRuntimeAdapter \<Rightarrow> ILanguageRuntimeMessage \<Rightarrow>
   ExtHostLanguageRuntimeAdapter" where
  "processMessage clientTypes s message =
     (case m_type message of
        Stream \<Rightarrow> s\<lparr> fired := fired s @ [DidReceiveRuntimeMessageStream message] \<rparr>
      | Output \<Rightarrow> s\<lparr> fired := fired s @ [DidReceiveRuntimeMessageOutput message] \<rparr>
      | Input \<Rightarrow> s\<lparr> fired := fired s @ [DidReceiveRuntimeMessageInput message] \<rparr>
      | Error \<Rightarrow> s\<lparr> fired := fired s @ [DidReceiveRuntimeMessageError message] \<rparr>
      | Prompt \<Rightarrow> s\<lparr> fired := fired s @ [DidReceiveRuntimeMessagePrompt message] \<rparr>
      | State \<Rightarrow> s\<lparr> fired := fired s @ [DidReceiveRuntimeMessageState message] \<rparr>
      | CommOpen \<Rightarrow> openClientInstance clientTypes s message
      | CommData \<Rightarrow> emitDidReceiveClientMessage s message
      | CommClosed \<Rightarrow> emitClientState s (comm_id message) Closed)"

text \<open>
  \<open>handOn\<close> notes in the history variable that a queued event is being handed on;
  it changes no field of the class.
\<close>

definition handOn ::
  "ExtHostLanguageRuntimeAdapter \<Rightarrow> QueuedRuntimeEvent \<Rightarrow> ExtHostLanguageRuntimeAdapter" where
  "handOn s event = s\<lparr> delivered := delivered s @ [event] \<rparr>"

definition handleQueuedEvent ::
  "string list \<Rightarrow> ExtHostLanguageRuntimeAdapter \<Rightarrow> QueuedRuntimeEvent \<Rightarrow>
   ExtHostLanguageRuntimeAdapter" where
  "handleQueuedEvent clientTypes s event =
     (case event of
        QueuedRuntimeMessageEvent c message \<Rightarrow> processMessage clientTypes (handOn s event) message
      | QueuedRuntimeStateEvent c st \<Rightarrow> adapter_stateEmitter_fire (handOn s event) st)"

text \<open>
  \<^verbatim>\<open>processEventQueue\<close>: the timer is cleared, a queue of two or more events is
  sorted by clock (\<^verbatim>\<open>Array.prototype.sort\<close> is stable, as \<open>sort_key\<close> is) and logged,
  every event sets the clock and is handled, and the queue is emptied.
\<close>

definition processEventQueue ::
  "string list \<Rightarrow> ExtHostLanguageRuntimeAdapter \<Rightarrow> ExtHostLanguageRuntimeAdapter" where
  "processEventQueue clientTypes s =
     (let s1 = s\<lparr> eventQueueTimer := False \<rparr>;
          s2 = (if length (eventQueue s1) > 1
                then logService (s1\<lparr> eventQueue := sort_key clock (eventQueue s1) \<rparr>) LogInfo
                       (ProcessingEvents (sort_key clock (eventQueue s1)))
                else s1);
          s3 = foldl (\<lambda>t event. handleQueuedEvent clientTypes (t\<lparr> eventClock := clock event \<rparr>) event)
                 s2 (eventQueue s2)
      in s3\<lparr> eventQueue := [] \<rparr>)"

text \<open>
  \<^verbatim>\<open>addToEventQueue\<close>. Arming the timer sets the flag; the body of its callback is
  \<open>eventQueueTimeout\<close>, which the scheduler runs 250 ms later unless the timer was
  cleared before.
\<close>

definition addToEventQueue ::
  "string list \<Rightarrow> ExtHostLanguageRuntimeAdapter \<Rightarrow> QueuedRuntimeEvent \<Rightarrow>
   ExtHostLanguageRuntimeAdapter" where
  "addToEventQueue clientTypes s event =
     (if clock event < eventClock s then
        (case event of
           QueuedRuntimeMessageEvent c message \<Rightarrow>
             processMessage clientTypes
               (handOn (logService s LogWarn (EmittingAnyway event (clock event) (eventClock s + 1))) event)
               message
         | QueuedRuntimeStateEvent c st \<Rightarrow> s)
      else
        (let s1 = s\<lparr> eventQueue := eventQueue s @ [event] \<rparr> in
         if clock event = eventClock s1 + 1 \<or> eventClock s1 = 0
         then processEventQueue clientTypes s1
         else (logService s1 LogInfo (Deferring event (clock event) (eventClock s1 + 1)))
                \<lparr> eventQueueTimer := True \<rparr>))"

definition eventQueueTimeout ::
  "string list \<Rightarrow> ExtHostLanguageRuntimeAdapter \<Rightarrow> ExtHostLanguageRuntimeAdapter" where
  "eventQueueTimeout clientTypes s =
     (if eventQueueTimer s
      then processEventQueue clientTypes (logService s LogWarn ProcessingAfterTimeout)
      else s)"

definition handleRuntimeMessage ::
  "string list \<Rightarrow> ExtHostLanguageRuntimeAdapter \<Rightarrow> ILanguageRuntimeMessage \<Rightarrow>
   ExtHostLanguageRuntimeAdapter" where
  "handleRuntimeMessage clientTypes s message =
     addToEventQueue clientTypes s (QueuedRuntimeMessageEvent (event_clock message) message)"

definition emitState ::
  "string list \<Rightarrow> ExtHostLanguageRuntimeAdapter \<Rightarrow> int \<Rightarrow> RuntimeState \<Rightarrow>
   ExtHostLanguageRuntimeAdapter" where
  "emitState clientTypes s c st = addToEventQueue clientTypes s (QueuedRuntimeStateEvent c st)"

subsection \<open>MainThreadLanguageRuntime\<close>

text \<open>The map \<^verbatim>\<open>_runtimes\<close> from handle to adapter, and the error \<^verbatim>\<open>findRuntime\<close> throws.\<close>

datatype Exception = UnknownLanguageRuntimeHandle int

type_synonym Runtimes = "int \<rightharpoonup> ExtHostLanguageRuntimeAdapter"

definition findRuntime :: "Runtimes \<Rightarrow> int \<Rightarrow> Exception + ExtHostLanguageRuntimeAdapter" where
  "findRuntime runtimes h =
     (case runtimes h of
        None \<Rightarrow> Inl (UnknownLanguageRuntimeHandle h)
      | Some runtime \<Rightarrow> Inr runtime)"

definition emitLanguageRuntimeMessage ::
  "string list \<Rightarrow> Runtimes \<Rightarrow> int \<Rightarrow> ILanguageRuntimeMessage \<Rightarrow> Exception + Runtimes" where
  "emitLanguageRuntimeMessage clientTypes runtimes h message =
     (case findRuntime runtimes h of
        Inl e \<Rightarrow> Inl e
      | Inr runtime \<Rightarrow> Inr (runtimes(h \<mapsto> handleRuntimeMessage clientTypes runtime message)))"

definition emitLanguageRuntimeState ::
  "string list \<Rightarrow> Runtimes \<Rightarrow> int \<Rightarrow> int \<Rightarrow> RuntimeState \<Rightarrow> Exception + Runtimes" where
  "emitLanguageRuntimeState clientTypes runtimes h c st =
     (case findRuntime runtimes h of
        Inl e \<Rightarrow> Inl e
      | Inr runtime \<Rightarrow> Inr (runtimes(h \<mapsto> emitState clientTypes runtime c st)))"

definition registerLanguageRuntime :: "Runtimes \<Rightarrow> int \<Rightarrow> string \<Rightarrow> string \<Rightarrow> Runtimes" where
  "registerLanguageRuntime runtimes h lang name = runtimes(h \<mapsto> new_adapter h lang name)"

definition unregisterLanguageRuntime :: "Runtimes \<Rightarrow> int \<Rightarrow> Runtimes" where
  "unregisterLanguageRuntime runtimes h = runtimes(h := None)"

subsection \<open>Everything that can happen to one adapter\<close>

text \<open>
  The calls from outside that change an adapter or one of its instances: the two
  inbound notifications, the queue timer, the consumer's calls and the callbacks
  of the scheduler and of the proxy's promises. \<open>step\<close> runs one of them. The
  methods that only forward to the proxy (\<^verbatim>\<open>execute\<close>, \<^verbatim>\<open>isCodeFragmentComplete\<close>,
  \<^verbatim>\<open>replyToPrompt\<close>) and \<^verbatim>\<open>start\<close>, which fires the two startup emitters, touch none
  of the fields modelled here.
\<close>

datatype Action =
  Message ILanguageRuntimeMessage
| StateChange int RuntimeState
| QueueTimer
| Create nat string string nat
| CreateSettled nat
| CreateFailed nat string
| Listed "(string \<times> string) list"
| Interrupt
| Restart
| Shutdown
| Rpc nat string string
| RpcTimer nat nat string string
| Send nat string string
| Dispose nat

fun step :: "string list \<Rightarrow> ExtHostLanguageRuntimeAdapter \<Rightarrow> Action \<Rightarrow> ExtHostLanguageRuntimeAdapter" where
  "step clientTypes s (Message message) = handleRuntimeMessage clientTypes s message"
| "step clientTypes s (StateChange c st) = emitState clientTypes s c st"
| "step clientTypes s QueueTimer = eventQueueTimeout clientTypes s"
| "step clientTypes s (Create counter ty params randomNumber) =
     fst (createClient s counter ty params randomNumber)"
| "step clientTypes s (CreateSettled client) = createClient_then s client"
| "step clientTypes s (CreateFailed client err) = createClient_catch s client err"
| "step clientTypes s (Listed listed) = fst (listClients_then clientTypes s listed)"
| "step clientTypes s Interrupt = interrupt s"
| "step clientTypes s Restart = restart s"
| "step clientTypes s Shutdown = shutdown s"
| "step clientTypes s (Rpc client messageId request) =
     onClient s client (\<lambda>c. fst (performRpc c messageId request))"
| "step clientTypes s (RpcTimer client promise messageId request) =
     onClient s client (\<lambda>c. performRpc_timeout c promise messageId request)"
| "step clientTypes s (Send client messageId message) =
     onClient s client (\<lambda>c. sendMessage c messageId message)"
| "step clientTypes s (Dispose client) = onClient s client dispose"

definition run ::
  "string list \<Rightarrow> ExtHostLanguageRuntimeAdapter \<Rightarrow> Action list \<Rightarrow> ExtHostLanguageRuntimeAdapter" where
  "run clientTypes s actions = foldl (step clientTypes) s actions"

subsection \<open>Submitting a batch, and sample values\<close>

text \<open>
  \<open>noLate s events\<close> tells whether, when \<open>events\<close> are submitted to \<open>s\<close> one after the
  other with no timer firing in between, none of them is late: each clock is at
  least the value \<^verbatim>\<open>_eventClock\<close> has when that event arrives.
\<close>

fun noLate ::
  "string list \<Rightarrow> ExtHostLanguageRuntimeAdapter \<Rightarrow> QueuedRuntimeEvent list \<Rightarrow> bool" where
  "noLate clientTypes s [] = True"
| "noLate clientTypes s (event # events) =
     (eventClock s \<le> clock event \<and> noLate clientTypes (addToEventQueue clientTypes s event) events)"

text \<open>
  The invariant of the queue: no queued event has a clock below \<^verbatim>\<open>_eventClock\<close>.
\<close>

definition queueAhead :: "ExtHostLanguageRuntimeAdapter \<Rightarrow> bool" where
  "queueAhead s = list_all (\<lambda>e. eventClock s \<le> clock e) (eventQueue s)"

text \<open>
  \<open>keeps P r s\<close>: the store of \<open>s\<close> has an instance at address \<open>r\<close>, and it satisfies
  \<open>P\<close>. \<open>stable P\<close>: no method of an instance makes \<open>P\<close> false, a state change to
  \<open>Connected\<close> apart.
\<close>

definition keeps ::
  "(ExtHostRuntimeClientInstance \<Rightarrow> bool) \<Rightarrow> nat \<Rightarrow> ExtHostLanguageRuntimeAdapter \<Rightarrow> bool" where
  "keeps P r s = (r < length (heap s) \<and> P (heap s ! r))"

definition stable :: "(ExtHostRuntimeClientInstance \<Rightarrow> bool) \<Rightarrow> bool" where
  "stable P =
     ((\<forall>c st. st \<noteq> Connected \<longrightarrow> P c \<longrightarrow> P (setClientState c st))
    \<and> (\<forall>c m. P c \<longrightarrow> P (emitData c m))
    \<and> (\<forall>c. P c \<longrightarrow> P (dispose c))
    \<and> (\<forall>c i q. P c \<longrightarrow> P (fst (performRpc c i q)))
    \<and> (\<forall>c p i q. P c \<longrightarrow> P (performRpc_timeout c p i q))
    \<and> (\<forall>c i q. P c \<longrightarrow> P (sendMessage c i q)))"

text \<open>Concrete values on which the theorems below are instantiated.\<close>

definition sampleTypes :: "string list" where
  "sampleTypes = [''positron.environment'']"

definition sampleMessage ::
  "LanguageRuntimeMessageType \<Rightarrow> int \<Rightarrow> string \<Rightarrow> ILanguageRuntimeMessage" where
  "sampleMessage ty c ident =
     \<lparr> m_type = ty, event_clock = c, comm_id = ident, target_name = ''positron.environment'',
       parent_id = [], m_data = ''{}'' \<rparr>"

definition sampleEvent :: "int \<Rightarrow> QueuedRuntimeEvent" where
  "sampleEvent c = QueuedRuntimeMessageEvent c (sampleMessage Stream c [])"

definition sampleAdapter :: ExtHostLanguageRuntimeAdapter where
  "sampleAdapter = new_adapter 1 ''python'' ''Python''"

definition sampleCreated :: ExtHostLanguageRuntimeAdapter where
  "sampleCreated = fst (createClient sampleAdapter 0 ''positron.environment'' ''{}'' 255)"

definition sampleOpened :: ExtHostLanguageRuntimeAdapter where
  "sampleOpened = handleRuntimeMessage sampleTypes sampleAdapter (sampleMessage CommOpen 1 ''c1'')"

definition sampleRpc :: "ExtHostRuntimeClientInstance \<times> nat" where
  "sampleRpc = performRpc (setClientState (new_client ''c1'' ''positron.environment'' 1) Connected)
                 ''m1'' ''{op:x}''"



subsection \<open>Dispatch as the spec words it\<close>

text \<open>
  What the subscribers of an adapter can see of it: the emitter trace \<open>fired\<close>, the
  runtime state, the registry \<open>clients\<close>, the comm instances in the store (each with
  its own emitter traces, promises and proxy calls), and the calls on the proxy.
  The queue, the clock, the timer, the log and the history variable are left out.
\<close>

definition observable ::
  "ExtHostLanguageRuntimeAdapter \<Rightarrow>
   int \<times> RuntimeState \<times> (string \<times> nat) list \<times> ExtHostRuntimeClientInstance list
     \<times> AdapterEvent list \<times> ProxyCall list" where
  "observable s = (handle s, currentState s, clients s, heap s, fired s, proxyCalls s)"

text \<open>
  \<open>dispatch_spec\<close> is written from the words of the spec, not from the source; it is
  what the theorems on the order of dispatch compare the code with. Section 4.2,
  Dispatch: an event is classified by category and forwarded to the matching
  subscriber channel; a comm open creates a comm instance and registers it; comm
  data is routed to the addressed comm by id and dropped if the id is unknown; a
  comm closed forces the addressed comm's state to \<open>Closed\<close>. Section 4.3: a comm open
  of an unrecognised type asks the remote side to discard the channel and creates
  nothing; otherwise the instance is created in \<open>Connected\<close> state and a created
  notification is raised. Section 4.2 on state changes: the state is recorded and
  notified, and on \<open>Exited\<close> the comms are closed through \<open>Closing\<close> and \<open>Closed\<close> and
  released (the connected ones, as the listener has it). What an instance does with
  a message routed to it (\<open>emitData\<close>) and with its disposal (\<open>dispose\<close>) belongs to
  the instance, section 4.4, and is taken from there. The function writes the
  fields of \<open>observable\<close> only.
\<close>

definition close_connected_spec ::
  "ExtHostRuntimeClientInstance list \<Rightarrow> nat \<Rightarrow> ExtHostRuntimeClientInstance list" where
  "close_connected_spec h r =
     (if c_state (h ! r) = Connected
      then h[r := dispose ((h ! r)\<lparr> c_stateFired := c_stateFired (h ! r) @ [Closing, Closed],
                                    c_state := Closed \<rparr>)]
      else h)"

definition dispatch_spec ::
  "string list \<Rightarrow> ExtHostLanguageRuntimeAdapter \<Rightarrow> QueuedRuntimeEvent \<Rightarrow> ExtHostLanguageRuntimeAdapter" where
  "dispatch_spec clientTypes s event =
     (case event of
        QueuedRuntimeStateEvent c st \<Rightarrow>
          s\<lparr> fired := fired s @ [DidChangeRuntimeState st],
             currentState := st,
             heap := (if st = Exited then foldl close_connected_spec (heap s) (map snd (clients s))
                      else heap s),
             clients := (if st = Exited then [] else clients s) \<rparr>
      | QueuedRuntimeMessageEvent c message \<Rightarrow>
          (case m_type message of
             Stream \<Rightarrow> s\<lparr> fired := fired s @ [DidReceiveRuntimeMessageStream message] \<rparr>
           | Output \<Rightarrow> s\<lparr> fired := fired s @ [DidReceiveRuntimeMessageOutput message] \<rparr>
           | Input \<Rightarrow> s\<lparr> fired := fired s @ [DidReceiveRuntimeMessageInput message] \<rparr>
           | Error \<Rightarrow> s\<lparr> fired := fired s @ [DidReceiveRuntimeMessageError message] \<rparr>
           | Prompt \<Rightarrow> s\<lparr> fired := fired s @ [DidReceiveRuntimeMessagePrompt message] \<rparr>
           | State \<Rightarrow> s\<lparr> fired := fired s @ [DidReceiveRuntimeMessageState message] \<rparr>
           | CommOpen \<Rightarrow>
               (if target_name message \<in> set clientTypes
                then s\<lparr> heap := heap s @
                           [(new_client (comm_id message) (target_name message) (handle s))
                              \<lparr> c_stateFired := [Connected], c_state := Connected \<rparr>],
                        clients := AList.update (comm_id message) (length (heap s)) (clients s),
                        fired := fired s @ [DidCreateClientInstance (length (heap s)) message] \<rparr>
                else s\<lparr> proxyCalls := proxyCalls s @
                           [ProxyRemoveClient (handle s) (comm_id message)] \<rparr>)
           | CommData \<Rightarrow>
               (case map_of (clients s) (comm_id message) of
                  Some r \<Rightarrow> s\<lparr> heap := (heap s)[r := emitData (heap s ! r) message] \<rparr>
                | None \<Rightarrow> s)
           | CommClosed \<Rightarrow>
               (case map_of (clients s) (comm_id message) of
                  Some r \<Rightarrow> s\<lparr> heap := (heap s)[r := (heap s ! r)
                                  \<lparr> c_stateFired := c_stateFired (heap s ! r) @ [Closed],
                                    c_state := Closed \<rparr>] \<rparr>
                | None \<Rightarrow> s)))"

text \<open>
  Whether a queued event is a message (\<^verbatim>\<open>instanceof QueuedRuntimeMessageEvent\<close>) or
  a state change.
\<close>

fun isMessageEvent :: "QueuedRuntimeEvent \<Rightarrow> bool" where
  "isMessageEvent (QueuedRuntimeMessageEvent c message) = True"
| "isMessageEvent (QueuedRuntimeStateEvent c st) = False"
declare toString.simps [simp del]

section \<open>What each operation leaves alone\<close>

lemma onClient_fields [simp]:
  "eventClock (onClient s r f) = eventClock s"
  "eventQueue (onClient s r f) = eventQueue s"
  "eventQueueTimer (onClient s r f) = eventQueueTimer s"
  "delivered (onClient s r f) = delivered s"
  "clients (onClient s r f) = clients s"
  "logged (onClient s r f) = logged s"
  "fired (onClient s r f) = fired s"
  "proxyCalls (onClient s r f) = proxyCalls s"
  "currentState (onClient s r f) = currentState s"
  "length (heap (onClient s r f)) = length (heap s)"
  by (simp_all add: onClient_def)

lemma heap_onClient:
  "heap (onClient s r f) ! q = (if q = r \<and> r < length (heap s) then f (heap s ! r) else heap s ! q)"
  by (cases "r < length (heap s)") (auto simp add: onClient_def list_update_beyond)

lemma logService_fields [simp]:
  "eventClock (logService s l m) = eventClock s"
  "eventQueue (logService s l m) = eventQueue s"
  "eventQueueTimer (logService s l m) = eventQueueTimer s"
  "delivered (logService s l m) = delivered s"
  "clients (logService s l m) = clients s"
  "logged (logService s l m) = logged s @ [(l, m)]"
  "fired (logService s l m) = fired s"
  "proxyCalls (logService s l m) = proxyCalls s"
  "currentState (logService s l m) = currentState s"
  "heap (logService s l m) = heap s"
  by (simp_all add: logService_def)

lemma handOn_fields [simp]:
  "eventClock (handOn s e) = eventClock s"
  "eventQueue (handOn s e) = eventQueue s"
  "eventQueueTimer (handOn s e) = eventQueueTimer s"
  "delivered (handOn s e) = delivered s @ [e]"
  "clients (handOn s e) = clients s"
  "logged (handOn s e) = logged s"
  "fired (handOn s e) = fired s"
  "proxyCalls (handOn s e) = proxyCalls s"
  "currentState (handOn s e) = currentState s"
  "heap (handOn s e) = heap s"
  by (simp_all add: handOn_def)

lemma closeIfConnected_fields [simp]:
  "eventClock (closeIfConnected s r) = eventClock s"
  "eventQueue (closeIfConnected s r) = eventQueue s"
  "eventQueueTimer (closeIfConnected s r) = eventQueueTimer s"
  "delivered (closeIfConnected s r) = delivered s"
  "logged (closeIfConnected s r) = logged s"
  "fired (closeIfConnected s r) = fired s"
  "clients (closeIfConnected s r) = clients s"
  "currentState (closeIfConnected s r) = currentState s"
  "proxyCalls (closeIfConnected s r) = proxyCalls s"
  "length (heap (closeIfConnected s r)) = length (heap s)"
  by (simp_all add: closeIfConnected_def)

lemma foldl_closeIfConnected_fields [simp]:
  "eventClock (foldl closeIfConnected s rs) = eventClock s"
  "eventQueue (foldl closeIfConnected s rs) = eventQueue s"
  "eventQueueTimer (foldl closeIfConnected s rs) = eventQueueTimer s"
  "delivered (foldl closeIfConnected s rs) = delivered s"
  "logged (foldl closeIfConnected s rs) = logged s"
  "fired (foldl closeIfConnected s rs) = fired s"
  "clients (foldl closeIfConnected s rs) = clients s"
  "currentState (foldl closeIfConnected s rs) = currentState s"
  "proxyCalls (foldl closeIfConnected s rs) = proxyCalls s"
  "length (heap (foldl closeIfConnected s rs)) = length (heap s)"
  by (induction rs arbitrary: s; simp)+

lemma adapter_stateEmitter_fire_fields [simp]:
  "eventClock (adapter_stateEmitter_fire s st) = eventClock s"
  "eventQueue (adapter_stateEmitter_fire s st) = eventQueue s"
  "eventQueueTimer (adapter_stateEmitter_fire s st) = eventQueueTimer s"
  "delivered (adapter_stateEmitter_fire s st) = delivered s"
  "logged (adapter_stateEmitter_fire s st) = logged s"
  "fired (adapter_stateEmitter_fire s st) = fired s @ [DidChangeRuntimeState st]"
  "currentState (adapter_stateEmitter_fire s st) = st"
  "proxyCalls (adapter_stateEmitter_fire s st) = proxyCalls s"
  "length (heap (adapter_stateEmitter_fire s st)) = length (heap s)"
  by (simp_all add: adapter_stateEmitter_fire_def onDidChangeRuntimeState_def Let_def)

lemma processMessage_fields [simp]:
  "eventClock (processMessage tys s m) = eventClock s"
  "eventQueue (processMessage tys s m) = eventQueue s"
  "eventQueueTimer (processMessage tys s m) = eventQueueTimer s"
  "delivered (processMessage tys s m) = delivered s"
  "currentState (processMessage tys s m) = currentState s"
  by (simp_all add: processMessage_def openClientInstance_def emitDidReceiveClientMessage_def
        emitClientState_def Let_def split: LanguageRuntimeMessageType.splits option.splits)


lemma logged_processMessage: "prefix (logged s) (logged (processMessage tys s m))"
  by (simp add: processMessage_def openClientInstance_def emitDidReceiveClientMessage_def
        emitClientState_def Let_def split: LanguageRuntimeMessageType.splits option.splits)

lemma handleQueuedEvent_fields [simp]:
  "eventClock (handleQueuedEvent tys s e) = eventClock s"
  "eventQueue (handleQueuedEvent tys s e) = eventQueue s"
  "eventQueueTimer (handleQueuedEvent tys s e) = eventQueueTimer s"
  "delivered (handleQueuedEvent tys s e) = delivered s @ [e]"
  by (simp_all add: handleQueuedEvent_def split: QueuedRuntimeEvent.splits)

section \<open>Flushing the queue\<close>

lemma flush_loop_fields [simp]:
  "delivered (foldl (\<lambda>t e. handleQueuedEvent tys (t\<lparr>eventClock := clock e\<rparr>) e) s q) = delivered s @ q"
  "eventClock (foldl (\<lambda>t e. handleQueuedEvent tys (t\<lparr>eventClock := clock e\<rparr>) e) s q)
     = (if q = [] then eventClock s else clock (last q))"
  "eventQueue (foldl (\<lambda>t e. handleQueuedEvent tys (t\<lparr>eventClock := clock e\<rparr>) e) s q) = eventQueue s"
  "eventQueueTimer (foldl (\<lambda>t e. handleQueuedEvent tys (t\<lparr>eventClock := clock e\<rparr>) e) s q) = eventQueueTimer s"
  by (induction q arbitrary: s; simp)+

lemma sort_key_short: "length q \<le> 1 \<Longrightarrow> sort_key f q = q"
  by (cases q; cases "tl q") auto

lemma sort_key_eq_Nil [simp]: "sort_key f q = [] \<longleftrightarrow> q = []"
  by (metis length_sort length_0_conv)

lemma processEventQueue_fields:
  "delivered (processEventQueue tys s) = delivered s @ sort_key clock (eventQueue s)"
  "eventClock (processEventQueue tys s)
     = (if eventQueue s = [] then eventClock s else clock (last (sort_key clock (eventQueue s))))"
  "eventQueue (processEventQueue tys s) = []"
  "eventQueueTimer (processEventQueue tys s) = False"
  by (auto simp add: processEventQueue_def Let_def sort_key_short)

section \<open>A late message\<close>

lemma late_message:
  assumes "c < eventClock s"
  shows "addToEventQueue tys s (QueuedRuntimeMessageEvent c m)
           = processMessage tys
               (handOn (logService s LogWarn
                  (EmittingAnyway (QueuedRuntimeMessageEvent c m) c (eventClock s + 1)))
                  (QueuedRuntimeMessageEvent c m)) m"
  using assms by (simp add: addToEventQueue_def)

lemma late_message_fields:
  assumes "c < eventClock s"
  shows "delivered (addToEventQueue tys s (QueuedRuntimeMessageEvent c m))
           = delivered s @ [QueuedRuntimeMessageEvent c m]"
    and "prefix (logged s @ [(LogWarn, EmittingAnyway (QueuedRuntimeMessageEvent c m) c (eventClock s + 1))])
           (logged (addToEventQueue tys s (QueuedRuntimeMessageEvent c m)))"
    and "eventClock (addToEventQueue tys s (QueuedRuntimeMessageEvent c m)) = eventClock s"
    and "eventQueue (addToEventQueue tys s (QueuedRuntimeMessageEvent c m)) = eventQueue s"
    and "eventQueueTimer (addToEventQueue tys s (QueuedRuntimeMessageEvent c m)) = eventQueueTimer s"
    and "currentState (addToEventQueue tys s (QueuedRuntimeMessageEvent c m)) = currentState s"
proof -
  let ?e = "QueuedRuntimeMessageEvent c m"
  let ?w = "logService s LogWarn (EmittingAnyway ?e c (eventClock s + 1))"
  note eq = late_message [OF assms, where tys = tys and m = m]
  show "delivered (addToEventQueue tys s ?e) = delivered s @ [?e]"
    and "eventClock (addToEventQueue tys s ?e) = eventClock s"
    and "eventQueue (addToEventQueue tys s ?e) = eventQueue s"
    and "eventQueueTimer (addToEventQueue tys s ?e) = eventQueueTimer s"
    and "currentState (addToEventQueue tys s ?e) = currentState s"
    by (simp_all add: eq)
  show "prefix (logged s @ [(LogWarn, EmittingAnyway ?e c (eventClock s + 1))])
           (logged (addToEventQueue tys s ?e))"
    using logged_processMessage [of "handOn ?w ?e" tys m] by (simp add: eq)
qed

lemmas sample_defs =
  sampleTypes_def sampleMessage_def sampleEvent_def sampleAdapter_def new_adapter_def

section \<open>Client instances\<close>

lemma setClientState_fields [simp]:
  "c_state (setClientState c st) = st"
  "c_stateFired (setClientState c st) = c_stateFired c @ [st]"
  "c_id (setClientState c st) = c_id c"
  "c_pendingRpcs (setClientState c st) = c_pendingRpcs c"
  "c_promises (setClientState c st) = c_promises c"
  "c_proxyCalls (setClientState c st) = c_proxyCalls c"
  "c_disposed (setClientState c st) = c_disposed c"
  "c_dataFired (setClientState c st) = c_dataFired c"
  by (simp_all add: setClientState_def client_stateEmitter_fire_def)

lemma cancelPendingRpcs_fields [simp]:
  "c_state (cancelPendingRpcs c) = c_state c"
  "c_stateFired (cancelPendingRpcs c) = c_stateFired c"
  "c_id (cancelPendingRpcs c) = c_id c"
  "c_pendingRpcs (cancelPendingRpcs c) = c_pendingRpcs c"
  "c_proxyCalls (cancelPendingRpcs c) = c_proxyCalls c"
  "c_disposed (cancelPendingRpcs c) = c_disposed c"
  "c_dataFired (cancelPendingRpcs c) = c_dataFired c"
  by (simp_all add: cancelPendingRpcs_def)

lemma dispose_closed [simp]:
  "c_state c = Closed \<Longrightarrow> c_state (dispose c) = Closed"
  "c_state c = Closed \<Longrightarrow> c_stateFired (dispose c) = c_stateFired c"
  "c_state c = Closed \<Longrightarrow> c_proxyCalls (dispose c) = c_proxyCalls c"
  by (simp_all add: dispose_def Let_def)

lemma dispose_fields [simp]:
  "c_disposed (dispose c)"
  "c_pendingRpcs (dispose c) = c_pendingRpcs c"
  "c_id (dispose c) = c_id c"
  "c_dataFired (dispose c) = c_dataFired c"
  by (simp_all add: dispose_def Let_def client_stateEmitter_fire_def)

lemma dispose_state: "c_state (dispose c) = Closed"
  by (simp add: dispose_def Let_def client_stateEmitter_fire_def)

text \<open>The sample adapter after the runtime has opened the comm \<open>c1\<close>.\<close>

lemma sampleAdapter_opened:
  "handleRuntimeMessage sampleTypes sampleAdapter (sampleMessage CommOpen 1 ''c1'')
     = \<lparr> handle = 1, languageId = ''python'', runtimeName = ''Python'',
         currentState = Uninitialized, clients = [(''c1'', 0)], eventClock = 1, eventQueue = [],
         eventQueueTimer = False,
         heap = [setClientState (new_client ''c1'' ''positron.environment'' 1) Connected],
         fired = [DidCreateClientInstance 0 (sampleMessage CommOpen 1 ''c1'')],
         delivered = [QueuedRuntimeMessageEvent 1 (sampleMessage CommOpen 1 ''c1'')],
         logged = [], proxyCalls = [] \<rparr>"
  by (simp add: sample_defs handleRuntimeMessage_def addToEventQueue_def processEventQueue_def
        handleQueuedEvent_def handOn_def processMessage_def openClientInstance_def onClient_def Let_def)

lemma sampleOpened_eq:
  "sampleOpened
     = \<lparr> handle = 1, languageId = ''python'', runtimeName = ''Python'',
         currentState = Uninitialized, clients = [(''c1'', 0)], eventClock = 1, eventQueue = [],
         eventQueueTimer = False,
         heap = [setClientState (new_client ''c1'' ''positron.environment'' 1) Connected],
         fired = [DidCreateClientInstance 0 (sampleMessage CommOpen 1 ''c1'')],
         delivered = [QueuedRuntimeMessageEvent 1 (sampleMessage CommOpen 1 ''c1'')],
         logged = [], proxyCalls = [] \<rparr>"
  unfolding sampleOpened_def by (rule sampleAdapter_opened)

text \<open>The sample adapter after \<^verbatim>\<open>createClient\<close>.\<close>

lemma sampleCreated_eq:
  "createClient sampleAdapter 0 ''positron.environment'' ''{}'' 255 = (sampleCreated, 0, 1)"
  "sampleCreated =
     \<lparr> handle = 1, languageId = ''python'', runtimeName = ''Python'',
       currentState = Uninitialized, clients = [(''positron-environment-python-0-ff'', 0)],
       eventClock = 0, eventQueue = [], eventQueueTimer = False,
       heap = [setClientState (new_client ''positron-environment-python-0-ff'' ''positron.environment'' 1) Opening],
       fired = [], delivered = [],
       logged = [(LogInfo, CreatingClient ''positron.environment'' ''positron-environment-python-0-ff'')],
       proxyCalls = [ProxyCreateClient 1 ''positron-environment-python-0-ff'' ''positron.environment'' ''{}''] \<rparr>"
  by (simp_all add: sampleCreated_def createClient_def generateClientId_def toString.simps Let_def
        sample_defs onClient_def logService_def)

section \<open>The clock and the queue\<close>

lemma createClient_fields [simp]:
  "eventClock (fst (createClient s n ty ps rnd)) = eventClock s"
  "eventQueue (fst (createClient s n ty ps rnd)) = eventQueue s"
  "eventQueueTimer (fst (createClient s n ty ps rnd)) = eventQueueTimer s"
  "delivered (fst (createClient s n ty ps rnd)) = delivered s"
  by (simp_all add: createClient_def Let_def split: prod.splits)

lemma createClient_then_fields [simp]:
  "eventClock (createClient_then s r) = eventClock s"
  "eventQueue (createClient_then s r) = eventQueue s"
  "eventQueueTimer (createClient_then s r) = eventQueueTimer s"
  "delivered (createClient_then s r) = delivered s"
  by (simp_all add: createClient_then_def)

lemma createClient_catch_fields [simp]:
  "eventClock (createClient_catch s r err) = eventClock s"
  "eventQueue (createClient_catch s r err) = eventQueue s"
  "eventQueueTimer (createClient_catch s r err) = eventQueueTimer s"
  "delivered (createClient_catch s r err) = delivered s"
  by (simp_all add: createClient_catch_def Let_def)

lemma listClients_each_fields [simp]:
  "eventClock (fst (listClients_each tys acc entry)) = eventClock (fst acc)"
  "eventQueue (fst (listClients_each tys acc entry)) = eventQueue (fst acc)"
  "eventQueueTimer (fst (listClients_each tys acc entry)) = eventQueueTimer (fst acc)"
  "delivered (fst (listClients_each tys acc entry)) = delivered (fst acc)"
  by (simp_all add: listClients_each_def Let_def split: prod.splits option.splits)

lemma listClients_loop_fields [simp]:
  "eventClock (fst (foldl (listClients_each tys) acc listed)) = eventClock (fst acc)"
  "eventQueue (fst (foldl (listClients_each tys) acc listed)) = eventQueue (fst acc)"
  "eventQueueTimer (fst (foldl (listClients_each tys) acc listed)) = eventQueueTimer (fst acc)"
  "delivered (fst (foldl (listClients_each tys) acc listed)) = delivered (fst acc)"
  by (induction listed arbitrary: acc; simp)+

lemma lifecycle_fields [simp]:
  "eventClock (interrupt s) = eventClock s" "eventQueue (interrupt s) = eventQueue s"
  "eventQueueTimer (interrupt s) = eventQueueTimer s" "delivered (interrupt s) = delivered s"
  "eventClock (restart s) = eventClock s" "eventQueue (restart s) = eventQueue s"
  "eventQueueTimer (restart s) = eventQueueTimer s" "delivered (restart s) = delivered s"
  "eventClock (shutdown s) = eventClock s" "eventQueue (shutdown s) = eventQueue s"
  "eventQueueTimer (shutdown s) = eventQueueTimer s" "delivered (shutdown s) = delivered s"
  by (simp_all add: interrupt_def restart_def shutdown_def Let_def)

text \<open>What a submission does to the buffer, when the event is not late.\<close>

lemma addToEventQueue_flush:
  assumes "eventClock s \<le> clock e" and "clock e = eventClock s + 1 \<or> eventClock s = 0"
  shows "addToEventQueue tys s e = processEventQueue tys (s\<lparr> eventQueue := eventQueue s @ [e] \<rparr>)"
  using assms by (auto simp add: addToEventQueue_def Let_def)

lemma addToEventQueue_defer:
  assumes "eventClock s \<le> clock e" and "clock e \<noteq> eventClock s + 1" and "eventClock s \<noteq> 0"
  shows "eventQueue (addToEventQueue tys s e) = eventQueue s @ [e]"
    and "eventClock (addToEventQueue tys s e) = eventClock s"
    and "eventQueueTimer (addToEventQueue tys s e)"
    and "delivered (addToEventQueue tys s e) = delivered s"
  using assms by (simp_all add: addToEventQueue_def Let_def)

lemma addToEventQueue_late:
  assumes "clock e < eventClock s"
  shows "eventQueue (addToEventQueue tys s e) = eventQueue s"
    and "eventClock (addToEventQueue tys s e) = eventClock s"
    and "eventQueueTimer (addToEventQueue tys s e) = eventQueueTimer s"
  using assms by (simp_all add: addToEventQueue_def split: QueuedRuntimeEvent.splits)

lemma flush_advances:
  assumes "queueAhead s"
  shows "eventClock s \<le> eventClock (processEventQueue tys s)"
proof (cases "eventQueue s = []")
  case True
  then show ?thesis by (simp add: processEventQueue_fields)
next
  case False
  then have "last (sort_key clock (eventQueue s)) \<in> set (sort_key clock (eventQueue s))"
    by (intro last_in_set) simp
  then have "last (sort_key clock (eventQueue s)) \<in> set (eventQueue s)"
    by simp
  with assms have "eventClock s \<le> clock (last (sort_key clock (eventQueue s)))"
    by (simp add: queueAhead_def list_all_iff)
  with False show ?thesis by (simp add: processEventQueue_fields)
qed

lemma queueAhead_flush: "queueAhead (processEventQueue tys s)"
  by (simp add: queueAhead_def processEventQueue_fields)

lemma queueAhead_cong:
  "eventClock t = eventClock s \<Longrightarrow> eventQueue t = eventQueue s \<Longrightarrow> queueAhead t = queueAhead s"
  by (simp add: queueAhead_def)

lemma queueAhead_push:
  "queueAhead s \<Longrightarrow> eventClock s \<le> clock e \<Longrightarrow> queueAhead (s\<lparr> eventQueue := eventQueue s @ [e] \<rparr>)"
  by (simp add: queueAhead_def)

lemma addToEventQueue_clock:
  assumes "queueAhead s"
  shows "eventClock s \<le> eventClock (addToEventQueue tys s e) \<and> queueAhead (addToEventQueue tys s e)"
proof (cases "clock e < eventClock s")
  case True
  then show ?thesis
    using assms addToEventQueue_late [OF True, of tys] by (simp add: queueAhead_def)
next
  case False
  then have le: "eventClock s \<le> clock e" by simp
  show ?thesis
  proof (cases "clock e = eventClock s + 1 \<or> eventClock s = 0")
    case True
    have "eventClock (s\<lparr> eventQueue := eventQueue s @ [e] \<rparr>)
            \<le> eventClock (processEventQueue tys (s\<lparr> eventQueue := eventQueue s @ [e] \<rparr>))"
      using assms le by (intro flush_advances queueAhead_push)
    then show ?thesis
      by (simp add: addToEventQueue_flush [OF le True] queueAhead_flush)
  next
    case False
    then show ?thesis
      using assms le addToEventQueue_defer [of s e tys] by (simp add: queueAhead_def)
  qed
qed

lemma eventQueueTimeout_clock:
  assumes "queueAhead s"
  shows "eventClock s \<le> eventClock (eventQueueTimeout tys s) \<and> queueAhead (eventQueueTimeout tys s)"
proof (cases "eventQueueTimer s")
  case True
  have "queueAhead (logService s LogWarn ProcessingAfterTimeout)"
    using assms by (simp add: queueAhead_def)
  then have "eventClock (logService s LogWarn ProcessingAfterTimeout)
               \<le> eventClock (processEventQueue tys (logService s LogWarn ProcessingAfterTimeout))"
    by (rule flush_advances)
  with True show ?thesis by (simp add: eventQueueTimeout_def queueAhead_flush)
next
  case False
  with assms show ?thesis by (simp add: eventQueueTimeout_def)
qed

lemma step_clock:
  assumes "queueAhead s"
  shows "eventClock s \<le> eventClock (step tys s a) \<and> queueAhead (step tys s a)"
proof (cases a)
  case (Message m)
  then show ?thesis using addToEventQueue_clock [OF assms] by (simp add: handleRuntimeMessage_def)
next
  case (StateChange c st)
  then show ?thesis using addToEventQueue_clock [OF assms] by (simp add: emitState_def)
next
  case QueueTimer
  then show ?thesis using eventQueueTimeout_clock [OF assms] by simp
qed (use assms in \<open>simp_all add: queueAhead_def listClients_then_def\<close>)

lemma run_clock:
  "queueAhead s \<Longrightarrow> eventClock s \<le> eventClock (run tys s actions) \<and> queueAhead (run tys s actions)"
proof (induction actions arbitrary: s)
  case Nil
  then show ?case by (simp add: run_def)
next
  case (Cons a actions)
  from step_clock [OF Cons.prems, of tys a]
  have 1: "eventClock s \<le> eventClock (step tys s a)" and 2: "queueAhead (step tys s a)" by simp_all
  from Cons.IH [OF 2] 1 show ?case by (simp add: run_def)
qed

text \<open>
  Inside one flush the clock does not go back either: after a prefix of a sorted
  queue that is ahead of the clock, it is at most what it is after a longer one.
\<close>

lemma flush_loop_never_back:
  assumes "sorted (map clock (xs @ ys))" and "\<forall>e\<in>set (xs @ ys). eventClock s \<le> clock e"
  shows "eventClock (foldl (\<lambda>t e. handleQueuedEvent tys (t\<lparr>eventClock := clock e\<rparr>) e) s xs)
       \<le> eventClock (foldl (\<lambda>t e. handleQueuedEvent tys (t\<lparr>eventClock := clock e\<rparr>) e) s (xs @ ys))"
proof (cases "ys = []")
  case True
  then show ?thesis by simp
next
  case False
  then have ly: "last ys \<in> set ys" by simp
  show ?thesis
  proof (cases "xs = []")
    case True
    with False ly assms(2) show ?thesis by simp
  next
    case xne: False
    then have "last xs \<in> set xs" by simp
    with ly assms(1) have "clock (last xs) \<le> clock (last ys)"
      by (simp add: sorted_append)
    with False xne show ?thesis by simp
  qed
qed

lemma clock_sampleEvent [simp]: "clock (sampleEvent c) = c"
  by (simp add: sampleEvent_def)

lemma sampleAdapter_fields [simp]:
  "eventClock sampleAdapter = 0" "eventQueue sampleAdapter = []"
  "eventQueueTimer sampleAdapter = False" "delivered sampleAdapter = []"
  by (simp_all add: sample_defs)

lemma addToEventQueue_flush_fields:
  assumes "eventClock s \<le> clock e" and "clock e = eventClock s + 1 \<or> eventClock s = 0"
  shows "delivered (addToEventQueue tys s e) = delivered s @ sort_key clock (eventQueue s @ [e])"
    and "eventClock (addToEventQueue tys s e) = clock (last (sort_key clock (eventQueue s @ [e])))"
    and "eventQueue (addToEventQueue tys s e) = []"
    and "eventQueueTimer (addToEventQueue tys s e) = False"
  by (simp_all add: addToEventQueue_flush [OF assms] processEventQueue_fields)

lemma late_sampleEvent:
  assumes "c < eventClock s"
  shows "delivered (addToEventQueue tys s (sampleEvent c)) = delivered s @ [sampleEvent c]"
    and "eventClock (addToEventQueue tys s (sampleEvent c)) = eventClock s"
    and "eventQueue (addToEventQueue tys s (sampleEvent c)) = eventQueue s"
    and "eventQueueTimer (addToEventQueue tys s (sampleEvent c)) = eventQueueTimer s"
  using late_message_fields [OF assms] by (simp_all add: sampleEvent_def)

section \<open>Properties of one instance that every operation keeps\<close>

lemma stable_True: "stable (\<lambda>c. True)"
  by (simp add: stable_def)

lemma performRpc_state [simp]: "c_state (fst (performRpc c i q)) = c_state c"
  by (simp add: performRpc_def Let_def)

lemma performRpc_timeout_state [simp]: "c_state (performRpc_timeout c p i q) = c_state c"
  by (simp add: performRpc_timeout_def)

lemma sendMessage_state [simp]: "c_state (sendMessage c i q) = c_state c"
  by (simp add: sendMessage_def)

lemma emitData_state [simp]: "c_state (emitData c m) = c_state c"
  by (simp add: emitData_def split: option.splits)

lemma stable_unconnected: "stable (\<lambda>c. getClientState c \<noteq> Connected)"
  by (simp add: stable_def getClientState_def dispose_state)

lemma keeps_fields [simp]:
  "keeps P r (s\<lparr>currentState := v1\<rparr>) = keeps P r s"
  "keeps P r (s\<lparr>clients := v2\<rparr>) = keeps P r s"
  "keeps P r (s\<lparr>eventClock := v3\<rparr>) = keeps P r s"
  "keeps P r (s\<lparr>eventQueue := v4\<rparr>) = keeps P r s"
  "keeps P r (s\<lparr>eventQueueTimer := v5\<rparr>) = keeps P r s"
  "keeps P r (s\<lparr>fired := v6\<rparr>) = keeps P r s"
  "keeps P r (s\<lparr>delivered := v7\<rparr>) = keeps P r s"
  "keeps P r (s\<lparr>logged := v8\<rparr>) = keeps P r s"
  "keeps P r (s\<lparr>proxyCalls := v9\<rparr>) = keeps P r s"
  "keeps P r (logService s lvl msg) = keeps P r s"
  "keeps P r (handOn s e) = keeps P r s"
  by (simp_all add: keeps_def)

lemma keeps_alloc: "keeps P r s \<Longrightarrow> keeps P r (s\<lparr>heap := heap s @ cs\<rparr>)"
  by (simp add: keeps_def nth_append)

lemma keeps_onClient:
  "keeps P r s \<Longrightarrow> (q = r \<Longrightarrow> P (f (heap s ! r))) \<Longrightarrow> keeps P r (onClient s q f)"
  by (auto simp add: keeps_def heap_onClient)

lemma keeps_onClient_other:
  "keeps P r s \<Longrightarrow> q \<noteq> r \<Longrightarrow> keeps P r (onClient s q f)"
  by (auto simp add: keeps_def heap_onClient)

lemma keeps_onClient_setClientState:
  "stable P \<Longrightarrow> st \<noteq> Connected \<Longrightarrow> keeps P r s \<Longrightarrow>
   keeps P r (onClient s q (\<lambda>c. setClientState c st))"
  by (auto simp add: keeps_def heap_onClient stable_def)

lemma keeps_onClient_emitData:
  "stable P \<Longrightarrow> keeps P r s \<Longrightarrow> keeps P r (onClient s q (\<lambda>c. emitData c m))"
  by (auto simp add: keeps_def heap_onClient stable_def)

lemma keeps_onClient_dispose:
  "stable P \<Longrightarrow> keeps P r s \<Longrightarrow> keeps P r (onClient s q dispose)"
  by (auto simp add: keeps_def heap_onClient stable_def)

lemma keeps_onClient_performRpc:
  "stable P \<Longrightarrow> keeps P r s \<Longrightarrow> keeps P r (onClient s q (\<lambda>c. fst (performRpc c i m)))"
  by (auto simp add: keeps_def heap_onClient stable_def)

lemma keeps_onClient_performRpc_timeout:
  "stable P \<Longrightarrow> keeps P r s \<Longrightarrow> keeps P r (onClient s q (\<lambda>c. performRpc_timeout c p i m))"
  by (auto simp add: keeps_def heap_onClient stable_def)

lemma keeps_onClient_sendMessage:
  "stable P \<Longrightarrow> keeps P r s \<Longrightarrow> keeps P r (onClient s q (\<lambda>c. sendMessage c i m))"
  by (auto simp add: keeps_def heap_onClient stable_def)

lemma keeps_closeIfConnected:
  assumes "stable P" and "keeps P r s"
  shows "keeps P r (closeIfConnected s q)"
proof -
  have "P (dispose (setClientState (setClientState c Closing) Closed))" if "P c" for c
    using assms(1) that by (simp add: stable_def)
  then have "keeps P r (onClient s q (\<lambda>c. dispose (setClientState (setClientState c Closing) Closed)))"
    using assms(2) by (auto simp add: keeps_def heap_onClient)
  with assms(2) show ?thesis by (simp add: closeIfConnected_def)
qed

lemma keeps_exit_loop: "stable P \<Longrightarrow> keeps P r s \<Longrightarrow> keeps P r (foldl closeIfConnected s qs)"
  by (induction qs arbitrary: s) (simp_all add: keeps_closeIfConnected)

lemma keeps_fire: "stable P \<Longrightarrow> keeps P r s \<Longrightarrow> keeps P r (adapter_stateEmitter_fire s st)"
  by (simp add: adapter_stateEmitter_fire_def onDidChangeRuntimeState_def Let_def keeps_exit_loop)

lemma keeps_emitClientState:
  "stable P \<Longrightarrow> st \<noteq> Connected \<Longrightarrow> keeps P r s \<Longrightarrow> keeps P r (emitClientState s ident st)"
  by (simp add: emitClientState_def keeps_onClient_setClientState split: option.splits)

lemma keeps_emitDidReceiveClientMessage:
  "stable P \<Longrightarrow> keeps P r s \<Longrightarrow> keeps P r (emitDidReceiveClientMessage s m)"
  by (simp add: emitDidReceiveClientMessage_def keeps_onClient_emitData split: option.splits)

lemma keeps_openClientInstance:
  assumes "keeps P r s"
  shows "keeps P r (openClientInstance tys s m)"
proof -
  let ?s1 = "s\<lparr>heap := heap s @ [new_client (comm_id m) (target_name m) (handle s)]\<rparr>"
  have "keeps P r ?s1" using assms by (rule keeps_alloc)
  moreover have "length (heap s) \<noteq> r" using assms by (simp add: keeps_def)
  ultimately have "keeps P r (onClient (?s1\<lparr>clients := AList.update (comm_id m) (length (heap s)) (clients s)\<rparr>)
      (length (heap s)) (\<lambda>c. setClientState c Connected))"
    by (intro keeps_onClient) simp_all
  with assms show ?thesis
    by (simp add: openClientInstance_def Let_def)
qed

lemma keeps_processMessage:
  "stable P \<Longrightarrow> keeps P r s \<Longrightarrow> keeps P r (processMessage tys s m)"
  by (simp add: processMessage_def keeps_openClientInstance keeps_emitDidReceiveClientMessage
        keeps_emitClientState split: LanguageRuntimeMessageType.splits)

lemma keeps_handleQueuedEvent:
  "stable P \<Longrightarrow> keeps P r s \<Longrightarrow> keeps P r (handleQueuedEvent tys s e)"
  by (simp add: handleQueuedEvent_def keeps_processMessage keeps_fire split: QueuedRuntimeEvent.splits)

lemma keeps_flush_loop:
  "stable P \<Longrightarrow> keeps P r s \<Longrightarrow>
   keeps P r (foldl (\<lambda>t e. handleQueuedEvent tys (t\<lparr>eventClock := clock e\<rparr>) e) s q)"
  by (induction q arbitrary: s) (simp_all add: keeps_handleQueuedEvent)

lemma keeps_processEventQueue:
  "stable P \<Longrightarrow> keeps P r s \<Longrightarrow> keeps P r (processEventQueue tys s)"
  by (simp add: processEventQueue_def Let_def keeps_flush_loop)

lemma keeps_addToEventQueue:
  "stable P \<Longrightarrow> keeps P r s \<Longrightarrow> keeps P r (addToEventQueue tys s e)"
  by (simp add: addToEventQueue_def Let_def keeps_processEventQueue keeps_processMessage
        split: QueuedRuntimeEvent.splits)

lemma keeps_eventQueueTimeout:
  "stable P \<Longrightarrow> keeps P r s \<Longrightarrow> keeps P r (eventQueueTimeout tys s)"
  by (simp add: eventQueueTimeout_def keeps_processEventQueue)

lemma keeps_createClient:
  assumes "keeps P r s"
  shows "keeps P r (fst (createClient s n ty ps rnd))"
proof -
  obtain ident n' where g: "generateClientId (languageId s) ty n rnd = (ident, n')"
    by (cases "generateClientId (languageId s) ty n rnd")
  let ?s2 = "logService (s\<lparr>heap := heap s @ [new_client ident ty (handle s)],
      clients := AList.update ident (length (heap s)) (clients s)\<rparr>) LogInfo (CreatingClient ty ident)"
  have "keeps P r ?s2" using keeps_alloc [OF assms] by simp
  moreover have "length (heap s) \<noteq> r" using assms by (simp add: keeps_def)
  ultimately have "keeps P r (onClient ?s2 (length (heap s)) (\<lambda>c. setClientState c Opening))"
    by (intro keeps_onClient) simp_all
  then show ?thesis
    by (simp add: createClient_def Let_def g)
qed

lemma keeps_createClient_then:
  assumes "q \<noteq> r \<or> (\<forall>c. P c \<longrightarrow> P (setClientState c Connected))" and "keeps P r s"
  shows "keeps P r (createClient_then s q)"
proof -
  have "keeps P r (onClient s q (\<lambda>c. setClientState c Connected))"
    using assms by (auto simp add: keeps_def heap_onClient)
  with assms(2) show ?thesis by (simp add: createClient_then_def)
qed

lemma keeps_createClient_catch:
  "stable P \<Longrightarrow> keeps P r s \<Longrightarrow> keeps P r (createClient_catch s q err)"
  by (simp add: createClient_catch_def Let_def keeps_onClient_setClientState)

lemma keeps_listClients_each:
  "keeps P r (fst acc) \<Longrightarrow> keeps P r (fst (listClients_each tys acc entry))"
  by (auto simp add: listClients_each_def Let_def keeps_alloc split: prod.splits option.splits)

lemma keeps_listClients_loop:
  "keeps P r (fst acc) \<Longrightarrow> keeps P r (fst (foldl (listClients_each tys) acc listed))"
  by (induction listed arbitrary: acc) (simp_all add: keeps_listClients_each)

lemma keeps_step:
  assumes "stable P" and "a \<noteq> CreateSettled r \<or> (\<forall>c. P c \<longrightarrow> P (setClientState c Connected))"
    and "keeps P r s"
  shows "keeps P r (step tys s a)"
proof (cases a)
  case (CreateSettled q)
  with assms(2) have "q \<noteq> r \<or> (\<forall>c. P c \<longrightarrow> P (setClientState c Connected))" by auto
  from keeps_createClient_then [OF this assms(3)] CreateSettled show ?thesis by simp
qed (use assms(1,3) in \<open>simp_all add: handleRuntimeMessage_def emitState_def keeps_addToEventQueue
      keeps_eventQueueTimeout keeps_createClient keeps_createClient_catch listClients_then_def
      keeps_listClients_loop interrupt_def restart_def shutdown_def Let_def keeps_fire
      keeps_onClient_performRpc keeps_onClient_performRpc_timeout keeps_onClient_sendMessage
      keeps_onClient_dispose\<close>)

lemma keeps_run:
  assumes "stable P"
    and "CreateSettled r \<notin> set actions \<or> (\<forall>c. P c \<longrightarrow> P (setClientState c Connected))"
    and "keeps P r s"
  shows "keeps P r (run tys s actions)"
  using assms(2,3)
proof (induction actions arbitrary: s)
  case Nil
  then show ?case by (simp add: run_def)
next
  case (Cons a actions)
  from Cons.prems have "keeps P r (step tys s a)"
    by (intro keeps_step [OF assms(1)]) auto
  with Cons.prems Cons.IH [of "step tys s a"] show ?case
    by (auto simp add: run_def)
qed

section \<open>The three ways an RPC ends\<close>

text \<open>
  A settled promise stays as it is. The response and the timeout settle a pending
  promise and delete its entry; a timeout that finds the promise settled does
  nothing. (\<^verbatim>\<open>dispose\<close> keeps \<^verbatim>\<open>_pendingRpcs\<close> as it is, by \<open>dispose_fields\<close>.)
\<close>

lemma settled_stays:
  "isSettled p \<Longrightarrow> complete p v = p"
  "isSettled p \<Longrightarrow> error p e = p"
  by (auto simp add: isSettled_def complete_def error_def)

lemma settles:
  "isSettled (complete p v)" "isSettled (error p e)"
  by (auto simp add: isSettled_def complete_def error_def split: option.splits)

lemma performRpc_pending:
  "performRpc c i q = (c', p) \<Longrightarrow>
   map_of (c_pendingRpcs c') i = Some p \<and> p < length (c_promises c') \<and> c_promises c' ! p = None"
  by (auto simp add: performRpc_def Let_def update_conv')

lemma response_removes:
  assumes "parent_id m \<noteq> []" and "map_of (c_pendingRpcs c) (parent_id m) = Some p"
    and "p < length (c_promises c)" and "c_promises c ! p = None"
  shows "map_of (c_pendingRpcs (emitData c m)) (parent_id m) = None"
    and "c_promises (emitData c m) ! p = Some (Resolved (m_data m))"
  using assms by (simp_all add: emitData_def delete_conv' complete_def)

lemma timeout_removes:
  assumes "p < length (c_promises c)" and "c_promises c ! p = None"
  shows "map_of (c_pendingRpcs (performRpc_timeout c p i q)) i = None"
    and "c_promises (performRpc_timeout c p i q) ! p = Some (Rejected (RpcTimedOut q))"
  using assms by (simp_all add: performRpc_timeout_def isSettled_def delete_conv' error_def)

lemma timeout_after_settled:
  "isSettled (c_promises c ! p) \<Longrightarrow> performRpc_timeout c p i q = c"
  by (simp add: performRpc_timeout_def)

text \<open>A Comm-closed message leaves \<^verbatim>\<open>_clients\<close> as it is.\<close>

lemma commClosed_keeps_clients:
  "m_type m = CommClosed \<Longrightarrow> clients (processMessage tys s m) = clients s"
  by (simp add: processMessage_def emitClientState_def split: option.splits)

section \<open>What processing a comm message does\<close>







section \<open>The code dispatches as the spec says\<close>

text \<open>
  Handling a queued event changes the observable part of the adapter as
  \<open>dispatch_spec\<close> does, and a flush of the queue as a fold of \<open>dispatch_spec\<close> over the
  sorted queue does.
\<close>

lemma observable_eq:
  "observable t = observable t' \<longleftrightarrow>
     handle t = handle t' \<and> currentState t = currentState t' \<and> clients t = clients t'
     \<and> heap t = heap t' \<and> fired t = fired t' \<and> proxyCalls t = proxyCalls t'"
  by (simp add: observable_def)

lemma observable_frame [simp]:
  "observable (logService s lvl msg) = observable s"
  "observable (handOn s e) = observable s"
  "observable (s\<lparr> eventClock := c \<rparr>) = observable s"
  "observable (s\<lparr> eventQueue := q \<rparr>) = observable s"
  "observable (s\<lparr> eventQueueTimer := b \<rparr>) = observable s"
  "observable (s\<lparr> logged := l \<rparr>) = observable s"
  "observable (s\<lparr> delivered := d \<rparr>) = observable s"
  by (simp_all add: observable_def logService_def handOn_def)

lemma heap_foldl_closeIfConnected:
  "heap (foldl closeIfConnected s rs) = foldl close_connected_spec (heap s) rs"
proof (induction rs arbitrary: s)
  case Nil
  show ?case by simp
next
  case (Cons r rs)
  have "heap (closeIfConnected s r) = close_connected_spec (heap s) r"
    by (simp add: closeIfConnected_def close_connected_spec_def onClient_def getClientState_def
          setClientState_def client_stateEmitter_fire_def)
  with Cons.IH [of "closeIfConnected s r"] show ?case by simp
qed

lemma handle_foldl_closeIfConnected [simp]:
  "handle (foldl closeIfConnected s rs) = handle s"
  by (induction rs arbitrary: s) (simp_all add: closeIfConnected_def onClient_def)

lemma processMessage_dispatch:
  "observable (processMessage tys s m)
     = observable (dispatch_spec tys s (QueuedRuntimeMessageEvent c m))"
  by (cases "m_type m")
     (simp_all add: observable_def processMessage_def dispatch_spec_def openClientInstance_def
        emitDidReceiveClientMessage_def emitClientState_def onClient_def logService_def Let_def
        setClientState_def client_stateEmitter_fire_def new_client_def split: option.splits)

lemma stateEmitter_dispatch:
  "observable (adapter_stateEmitter_fire s st)
     = observable (dispatch_spec tys s (QueuedRuntimeStateEvent c st))"
  by (simp add: observable_def adapter_stateEmitter_fire_def onDidChangeRuntimeState_def
        dispatch_spec_def Let_def heap_foldl_closeIfConnected)

lemma dispatch_spec_cong:
  assumes "observable t = observable t'"
  shows "observable (dispatch_spec tys t e) = observable (dispatch_spec tys t' e)"
proof (cases e)
  case (QueuedRuntimeMessageEvent c m)
  from assms show ?thesis
    unfolding QueuedRuntimeMessageEvent
    by (cases "m_type m")
       (simp_all add: observable_def dispatch_spec_def split: option.splits)
next
  case (QueuedRuntimeStateEvent c st)
  from assms show ?thesis
    unfolding QueuedRuntimeStateEvent
    by (simp add: observable_def dispatch_spec_def)
qed

lemma handleQueuedEvent_dispatch:
  assumes "observable t = observable t'"
  shows "observable (handleQueuedEvent tys t e) = observable (dispatch_spec tys t' e)"
proof -
  have "observable (handleQueuedEvent tys t e) = observable (dispatch_spec tys (handOn t e) e)"
    by (cases e) (simp_all add: handleQueuedEvent_def processMessage_dispatch stateEmitter_dispatch)
  also have "\<dots> = observable (dispatch_spec tys t' e)"
    using assms by (intro dispatch_spec_cong) simp
  finally show ?thesis .
qed

lemma foldl_dispatch_spec_cong:
  "observable t = observable t' \<Longrightarrow>
   observable (foldl (dispatch_spec tys) t q) = observable (foldl (dispatch_spec tys) t' q)"
proof (induction q arbitrary: t t')
  case Nil
  then show ?case by simp
next
  case (Cons e q)
  from Cons.IH [OF dispatch_spec_cong [OF Cons.prems]] show ?case by simp
qed

lemma flush_loop_dispatch:
  "observable t = observable t' \<Longrightarrow>
   observable (foldl (\<lambda>t event. handleQueuedEvent tys (t\<lparr>eventClock := clock event\<rparr>) event) t q)
     = observable (foldl (dispatch_spec tys) t' q)"
proof (induction q arbitrary: t t')
  case Nil
  then show ?case by simp
next
  case (Cons e q)
  have "observable (handleQueuedEvent tys (t\<lparr>eventClock := clock e\<rparr>) e)
          = observable (dispatch_spec tys t' e)"
    using Cons.prems by (intro handleQueuedEvent_dispatch) simp
  from Cons.IH [OF this] show ?case by simp
qed

lemma processEventQueue_dispatch:
  "observable (processEventQueue tys s)
     = observable (foldl (dispatch_spec tys) s (sort_key clock (eventQueue s)))"
proof -
  let ?loop = "foldl (\<lambda>t event. handleQueuedEvent tys (t\<lparr>eventClock := clock event\<rparr>) event)"
  have loop: "observable (?loop t q) = observable (foldl (dispatch_spec tys) s q)"
    if "observable t = observable s" for t q
    using that by (rule flush_loop_dispatch)
  show ?thesis
  proof (cases "length (eventQueue s) > 1")
    case True
    then show ?thesis
      by (simp add: processEventQueue_def Let_def logService_def loop)
  next
    case False
    then have "sort_key clock (eventQueue s) = eventQueue s"
      by (intro sort_key_short) simp
    with False show ?thesis
      by (simp add: processEventQueue_def Let_def loop)
  qed
qed

lemma addToEventQueue_flush_dispatch:
  assumes "eventClock s \<le> clock e" and "clock e = eventClock s + 1 \<or> eventClock s = 0"
  shows "observable (addToEventQueue tys s e)
           = observable (foldl (dispatch_spec tys) s (sort_key clock (eventQueue s @ [e])))"
  using foldl_dispatch_spec_cong [of "s\<lparr> eventQueue := eventQueue s @ [e] \<rparr>" s tys]
  by (simp add: addToEventQueue_flush [OF assms] processEventQueue_dispatch)

lemma addToEventQueue_defer_dispatch:
  assumes "eventClock s \<le> clock e" and "clock e \<noteq> eventClock s + 1" and "eventClock s \<noteq> 0"
  shows "observable (addToEventQueue tys s e) = observable s"
  using assms by (simp add: addToEventQueue_def Let_def)

lemma late_message_dispatch:
  assumes "c < eventClock s"
  shows "observable (addToEventQueue tys s (QueuedRuntimeMessageEvent c m))
           = observable (dispatch_spec tys s (QueuedRuntimeMessageEvent c m))"
proof -
  have "observable (addToEventQueue tys s (QueuedRuntimeMessageEvent c m))
          = observable (dispatch_spec tys
              (handOn (logService s LogWarn
                 (EmittingAnyway (QueuedRuntimeMessageEvent c m) c (eventClock s + 1)))
                 (QueuedRuntimeMessageEvent c m)) (QueuedRuntimeMessageEvent c m))"
    by (simp add: late_message [OF assms] processMessage_dispatch)
  also have "\<dots> = observable (dispatch_spec tys s (QueuedRuntimeMessageEvent c m))"
    by (intro dispatch_spec_cong) simp
  finally show ?thesis .
qed

lemma timeout_dispatch:
  assumes "eventQueue s \<noteq> [] \<longrightarrow> eventQueueTimer s"
  shows "observable (eventQueueTimeout tys s)
           = observable (foldl (dispatch_spec tys) s (sort_key clock (eventQueue s)))"
proof (cases "eventQueueTimer s")
  case True
  have "observable (foldl (dispatch_spec tys) (logService s LogWarn ProcessingAfterTimeout) q)
          = observable (foldl (dispatch_spec tys) s q)" for q
    by (rule foldl_dispatch_spec_cong) simp
  with True show ?thesis
    by (simp add: eventQueueTimeout_def processEventQueue_dispatch)
next
  case False
  with assms have "eventQueue s = []" by blast
  with False show ?thesis by (simp add: eventQueueTimeout_def)
qed

text \<open>
  A late event: a message is dispatched at once, after a warning; a state change is
  dropped.
\<close>

lemma late_dispatch:
  assumes "clock e < eventClock s"
  shows "observable (addToEventQueue tys s e)
           = observable (foldl (dispatch_spec tys) s (filter isMessageEvent [e]))"
    and "eventClock (addToEventQueue tys s e) = eventClock s"
    and "isMessageEvent e \<Longrightarrow>
           prefix (logged s @ [(LogWarn, EmittingAnyway e (clock e) (eventClock s + 1))])
             (logged (addToEventQueue tys s e))"
    and "\<not> isMessageEvent e \<Longrightarrow> addToEventQueue tys s e = s"
proof -
  show "observable (addToEventQueue tys s e)
           = observable (foldl (dispatch_spec tys) s (filter isMessageEvent [e]))"
  proof (cases e)
    case (QueuedRuntimeMessageEvent c m)
    with assms show ?thesis by (simp add: late_message_dispatch)
  next
    case (QueuedRuntimeStateEvent c st)
    with assms show ?thesis by (simp add: addToEventQueue_def)
  qed
  show "eventClock (addToEventQueue tys s e) = eventClock s"
    using assms by (rule addToEventQueue_late(2))
  show "prefix (logged s @ [(LogWarn, EmittingAnyway e (clock e) (eventClock s + 1))])
             (logged (addToEventQueue tys s e))" if "isMessageEvent e"
  proof (cases e)
    case (QueuedRuntimeMessageEvent c m)
    with assms late_message_fields(2) [where c = c and s = s and tys = tys and m = m] show ?thesis by simp
  next
    case (QueuedRuntimeStateEvent c st)
    with that show ?thesis by simp
  qed
  show "addToEventQueue tys s e = s" if "\<not> isMessageEvent e"
    using that assms by (cases e) (simp_all add: addToEventQueue_def)
qed

text \<open>The trace of the adapter's emitters after a run of sample events.\<close>

lemma observable_fields:
  assumes "observable a = observable b"
  shows "fired a = fired b" and "heap a = heap b" and "clients a = clients b"
    and "currentState a = currentState b" and "proxyCalls a = proxyCalls b"
  using assms by (simp_all add: observable_def)

lemma fired_dispatch_sampleEvents:
  "fired (foldl (dispatch_spec tys) s (map sampleEvent cs))
     = fired s @ map (\<lambda>c. DidReceiveRuntimeMessageStream (sampleMessage Stream c [])) cs"
  by (induction cs arbitrary: s) (simp_all add: dispatch_spec_def sampleEvent_def sampleMessage_def)

lemma fired_sampleAdapter [simp]: "fired sampleAdapter = []" "logged sampleAdapter = []"
  "currentState sampleAdapter = Uninitialized"
  by (simp_all add: sample_defs)

section \<open>Unknown handles and unknown comm ids\<close>

text \<open>
  Claim C10. A message or a state change for a handle that is not in \<^verbatim>\<open>_runtimes\<close>
  makes \<^verbatim>\<open>$emitLanguageRuntimeMessage\<close> and \<^verbatim>\<open>$emitLanguageRuntimeState\<close> throw the
  error \<^verbatim>\<open>Unknown language runtime handle\<close>. A comm id that is not in \<^verbatim>\<open>_clients\<close> is
  treated differently: the comm data or the state change is dropped, the only
  effect is one warning in the log, and nothing is thrown.
\<close>

theorem unknown_handle_throws:
  assumes "runtimes h = None" and "map_of (clients s) (comm_id message) = None"
  shows "emitLanguageRuntimeMessage clientTypes runtimes h message = Inl (UnknownLanguageRuntimeHandle h)
       \<and> emitLanguageRuntimeState clientTypes runtimes h c st = Inl (UnknownLanguageRuntimeHandle h)
       \<and> emitDidReceiveClientMessage s message
           = s\<lparr> logged := logged s @ [(LogWarn, ClientNotFoundDroppingMessage (comm_id message) message)] \<rparr>
       \<and> emitClientState s (comm_id message) cst
           = s\<lparr> logged := logged s @ [(LogWarn, ClientNotFoundDroppingState (comm_id message) cst)] \<rparr>"
  using assms
  by (simp add: emitLanguageRuntimeMessage_def emitLanguageRuntimeState_def findRuntime_def
        emitDidReceiveClientMessage_def emitClientState_def logService_def)

theorem unknown_handle_throws_witness:
  "(Map.empty :: Runtimes) 7 = None
   \<and> map_of (clients sampleAdapter) (comm_id (sampleMessage CommData 1 ''c1'')) = None
   \<and> emitLanguageRuntimeMessage sampleTypes Map.empty 7 (sampleMessage CommData 1 ''c1'')
        = Inl (UnknownLanguageRuntimeHandle 7)
   \<and> emitLanguageRuntimeState sampleTypes Map.empty 7 1 Ready = Inl (UnknownLanguageRuntimeHandle 7)
   \<and> logged (emitDidReceiveClientMessage sampleAdapter (sampleMessage CommData 1 ''c1''))
        = [(LogWarn, ClientNotFoundDroppingMessage ''c1'' (sampleMessage CommData 1 ''c1''))]
   \<and> logged (emitClientState sampleAdapter ''c1'' Closed)
        = [(LogWarn, ClientNotFoundDroppingState ''c1'' Closed)]"
proof -
  have h1: "(Map.empty :: Runtimes) 7 = None" by simp
  have h2: "map_of (clients sampleAdapter) (comm_id (sampleMessage CommData 1 ''c1'')) = None"
    by (simp add: sample_defs)
  show ?thesis
    using h1 h2
      unknown_handle_throws [OF h1 h2, where clientTypes = sampleTypes and c = 1 and st = Ready and cst = Closed]
    by (simp add: sample_defs)
qed

section \<open>Late events\<close>



section \<open>The first events of a session\<close>

text \<open>
  Claim C5 says that when events with clocks 3, 1, 2 are the first ones a session
  sees, in this order of arrival, the event with clock 3 is delivered first and the
  events with clocks 1 and 2 are then delivered late, each with a warning. This
  holds for messages only. A fresh adapter that receives a stream message with
  clock 3 and then, through \<^verbatim>\<open>emitState\<close>, the state changes \<open>Busy\<close> with clock 1 and
  \<open>Ready\<close> with clock 2 fires the message and nothing else: the two state changes are
  late, \<^verbatim>\<open>addToEventQueue\<close> ignores a late state change on purpose, so neither is
  fired, no warning is logged, and the runtime state stays \<open>Uninitialized\<close>.
\<close>

theorem state_changes_1_2_dropped:
  "eventClock sampleAdapter = 0 \<and> eventQueue sampleAdapter = []
   \<and> fired (emitState sampleTypes
        (emitState sampleTypes
           (handleRuntimeMessage sampleTypes sampleAdapter (sampleMessage Stream 3 [])) 1 Busy) 2 Ready)
      = [DidReceiveRuntimeMessageStream (sampleMessage Stream 3 [])]
   \<and> logged (emitState sampleTypes
        (emitState sampleTypes
           (handleRuntimeMessage sampleTypes sampleAdapter (sampleMessage Stream 3 [])) 1 Busy) 2 Ready)
      = []
   \<and> getRuntimeState (emitState sampleTypes
        (emitState sampleTypes
           (handleRuntimeMessage sampleTypes sampleAdapter (sampleMessage Stream 3 [])) 1 Busy) 2 Ready)
      = Uninitialized
   \<and> emitState sampleTypes
        (emitState sampleTypes
           (handleRuntimeMessage sampleTypes sampleAdapter (sampleMessage Stream 3 [])) 1 Busy) 2 Ready
      = handleRuntimeMessage sampleTypes sampleAdapter (sampleMessage Stream 3 [])"
proof -
  define s3 where "s3 = handleRuntimeMessage sampleTypes sampleAdapter (sampleMessage Stream 3 [])"
  have s3: "s3 = sampleAdapter\<lparr> eventClock := 3,
                   fired := [DidReceiveRuntimeMessageStream (sampleMessage Stream 3 [])],
                   delivered := [QueuedRuntimeMessageEvent 3 (sampleMessage Stream 3 [])] \<rparr>"
    by (simp add: s3_def sample_defs handleRuntimeMessage_def addToEventQueue_def
          processEventQueue_def handleQueuedEvent_def handOn_def processMessage_def Let_def)
  have c3: "eventClock s3 = 3" "fired s3 = [DidReceiveRuntimeMessageStream (sampleMessage Stream 3 [])]"
    "logged s3 = []" "currentState s3 = Uninitialized"
    by (simp_all add: s3)
  have d1: "emitState sampleTypes s3 1 Busy = s3"
    by (simp add: emitState_def addToEventQueue_def c3)
  have d2: "emitState sampleTypes s3 2 Ready = s3"
    by (simp add: emitState_def addToEventQueue_def c3)
  show ?thesis
    unfolding s3_def [symmetric] d1 d2 by (simp add: c3 getRuntimeState_def)
qed

text \<open>
  Claim C5, amended. Nothing was observed before (\<^verbatim>\<open>_eventClock\<close> is 0 and the queue is
  empty), and events with clocks 3, 1, 2 arrive in this order. The event with clock
  3 is dispatched to the subscribers at once, as \<open>dispatch_spec\<close> says, and sets the
  clock to 3. The events with clocks 1 and 2 are then late. One that is a message is
  dispatched to the subscribers on arrival, out of order, after a warning has been
  logged; one that is a state change is dropped and leaves the adapter as it was.
  So what the subscribers have seen in the end is the dispatch of the event with
  clock 3, then of those of the events with clocks 1 and 2 that are messages, in
  this order; the clock stays at 3.
\<close>

theorem first_events_3_1_2:
  assumes "eventClock s = 0" and "eventQueue s = []"
    and "clock e3 = 3" and "clock e1 = 1" and "clock e2 = 2"
  shows "observable (addToEventQueue clientTypes s e3) = observable (dispatch_spec clientTypes s e3)
       \<and> eventClock (addToEventQueue clientTypes s e3) = 3
       \<and> observable (foldl (addToEventQueue clientTypes) s [e3, e1, e2])
           = observable (foldl (dispatch_spec clientTypes) s (e3 # filter isMessageEvent [e1, e2]))
       \<and> eventClock (foldl (addToEventQueue clientTypes) s [e3, e1, e2]) = 3
       \<and> (isMessageEvent e1 \<longrightarrow>
            prefix (logged (addToEventQueue clientTypes s e3) @ [(LogWarn, EmittingAnyway e1 1 4)])
              (logged (foldl (addToEventQueue clientTypes) s [e3, e1])))
       \<and> (isMessageEvent e2 \<longrightarrow>
            prefix (logged (foldl (addToEventQueue clientTypes) s [e3, e1])
                      @ [(LogWarn, EmittingAnyway e2 2 4)])
              (logged (foldl (addToEventQueue clientTypes) s [e3, e1, e2])))
       \<and> (\<not> isMessageEvent e1 \<longrightarrow>
            foldl (addToEventQueue clientTypes) s [e3, e1] = addToEventQueue clientTypes s e3)
       \<and> (\<not> isMessageEvent e2 \<longrightarrow>
            foldl (addToEventQueue clientTypes) s [e3, e1, e2]
              = foldl (addToEventQueue clientTypes) s [e3, e1])"
proof -
  define s3 where "s3 = addToEventQueue clientTypes s e3"
  define s1 where "s1 = addToEventQueue clientTypes s3 e1"
  define s2 where "s2 = addToEventQueue clientTypes s1 e2"
  have le: "eventClock s \<le> clock e3" and first: "clock e3 = eventClock s + 1 \<or> eventClock s = 0"
    using assms by simp_all
  have o3: "observable s3 = observable (dispatch_spec clientTypes s e3)"
    unfolding s3_def using addToEventQueue_flush_dispatch [OF le first, of clientTypes] assms(2)
    by simp
  have c3: "eventClock s3 = 3"
    unfolding s3_def using addToEventQueue_flush_fields(2) [OF le first, of clientTypes] assms(2,3)
    by simp
  have late1: "clock e1 < eventClock s3" using c3 assms(4) by simp
  note r1 = late_dispatch [OF late1, of clientTypes, folded s1_def]
  have c1: "eventClock s1 = 3" using r1(2) c3 by simp
  have late2: "clock e2 < eventClock s1" using c1 assms(5) by simp
  note r2 = late_dispatch [OF late2, of clientTypes, folded s2_def]
  have c2: "eventClock s2 = 3" using r2(2) c1 by simp
  have "observable s1 = observable (foldl (dispatch_spec clientTypes) (dispatch_spec clientTypes s e3)
                          (filter isMessageEvent [e1]))"
    using r1(1) foldl_dispatch_spec_cong [OF o3, of clientTypes "filter isMessageEvent [e1]"]
    by simp
  from foldl_dispatch_spec_cong [OF this, of clientTypes "filter isMessageEvent [e2]"] r2(1)
  have o2: "observable s2
              = observable (foldl (dispatch_spec clientTypes) s (e3 # filter isMessageEvent [e1, e2]))"
    by simp
  have w1: "isMessageEvent e1 \<longrightarrow> prefix (logged s3 @ [(LogWarn, EmittingAnyway e1 1 4)]) (logged s1)"
    using r1(3) c3 assms(4) by simp
  have w2: "isMessageEvent e2 \<longrightarrow> prefix (logged s1 @ [(LogWarn, EmittingAnyway e2 2 4)]) (logged s2)"
    using r2(3) c1 assms(5) by simp
  have n1: "\<not> isMessageEvent e1 \<longrightarrow> s1 = s3" using r1(4) by simp
  have n2: "\<not> isMessageEvent e2 \<longrightarrow> s2 = s1" using r2(4) by simp
  have run: "foldl (addToEventQueue clientTypes) s [e3, e1, e2] = s2"
    "foldl (addToEventQueue clientTypes) s [e3, e1] = s1"
    by (simp_all add: s1_def s2_def s3_def)
  show ?thesis
    unfolding run s3_def [symmetric] using o3 c3 o2 c2 w1 w2 n1 n2 by blast
qed

theorem first_events_3_1_2_witness:
  "eventClock sampleAdapter = 0 \<and> eventQueue sampleAdapter = []
   \<and> clock (sampleEvent 3) = 3 \<and> clock (sampleEvent 1) = 1 \<and> clock (sampleEvent 2) = 2
   \<and> fired (addToEventQueue sampleTypes sampleAdapter (sampleEvent 3))
       = [DidReceiveRuntimeMessageStream (sampleMessage Stream 3 [])]
   \<and> fired (foldl (addToEventQueue sampleTypes) sampleAdapter
         [sampleEvent 3, sampleEvent 1, sampleEvent 2])
       = [DidReceiveRuntimeMessageStream (sampleMessage Stream 3 []),
          DidReceiveRuntimeMessageStream (sampleMessage Stream 1 []),
          DidReceiveRuntimeMessageStream (sampleMessage Stream 2 [])]
   \<and> eventClock (foldl (addToEventQueue sampleTypes) sampleAdapter
         [sampleEvent 3, sampleEvent 1, sampleEvent 2]) = 3
   \<and> prefix (logged (addToEventQueue sampleTypes sampleAdapter (sampleEvent 3))
               @ [(LogWarn, EmittingAnyway (sampleEvent 1) 1 4)])
        (logged (foldl (addToEventQueue sampleTypes) sampleAdapter [sampleEvent 3, sampleEvent 1]))
   \<and> prefix (logged (foldl (addToEventQueue sampleTypes) sampleAdapter [sampleEvent 3, sampleEvent 1])
               @ [(LogWarn, EmittingAnyway (sampleEvent 2) 2 4)])
        (logged (foldl (addToEventQueue sampleTypes) sampleAdapter
           [sampleEvent 3, sampleEvent 1, sampleEvent 2]))
   \<and> clock (QueuedRuntimeStateEvent 1 Busy) = 1
   \<and> fired (foldl (addToEventQueue sampleTypes) sampleAdapter
         [sampleEvent 3, QueuedRuntimeStateEvent 1 Busy, sampleEvent 2])
       = [DidReceiveRuntimeMessageStream (sampleMessage Stream 3 []),
          DidReceiveRuntimeMessageStream (sampleMessage Stream 2 [])]
   \<and> foldl (addToEventQueue sampleTypes) sampleAdapter [sampleEvent 3, QueuedRuntimeStateEvent 1 Busy]
       = addToEventQueue sampleTypes sampleAdapter (sampleEvent 3)"
proof -
  have h1: "eventClock sampleAdapter = 0" and h2: "eventQueue sampleAdapter = []"
    and h3: "clock (sampleEvent 3) = 3" and h4: "clock (sampleEvent 1) = 1"
    and h5: "clock (sampleEvent 2) = 2" and h6: "clock (QueuedRuntimeStateEvent 1 Busy) = 1"
    by simp_all
  have m: "isMessageEvent (sampleEvent c)" for c
    by (simp add: sampleEvent_def)
  note a = first_events_3_1_2 [OF h1 h2 h3 h4 h5, where clientTypes = sampleTypes]
  note b = first_events_3_1_2 [OF h1 h2 h3 h6 h5, where clientTypes = sampleTypes]
  have a1: "observable (addToEventQueue sampleTypes sampleAdapter (sampleEvent 3))
              = observable (foldl (dispatch_spec sampleTypes) sampleAdapter (map sampleEvent [3]))"
    using a [THEN conjunct1] by simp
  have a3: "observable (foldl (addToEventQueue sampleTypes) sampleAdapter
              [sampleEvent 3, sampleEvent 1, sampleEvent 2])
              = observable (foldl (dispatch_spec sampleTypes) sampleAdapter (map sampleEvent [3, 1, 2]))"
    using a [THEN conjunct2, THEN conjunct2, THEN conjunct1] by (simp add: m)
  have b3: "observable (foldl (addToEventQueue sampleTypes) sampleAdapter
              [sampleEvent 3, QueuedRuntimeStateEvent 1 Busy, sampleEvent 2])
              = observable (foldl (dispatch_spec sampleTypes) sampleAdapter (map sampleEvent [3, 2]))"
    using b [THEN conjunct2, THEN conjunct2, THEN conjunct1] by (simp add: m)
  have rest: "eventClock (foldl (addToEventQueue sampleTypes) sampleAdapter
         [sampleEvent 3, sampleEvent 1, sampleEvent 2]) = 3
   \<and> prefix (logged (addToEventQueue sampleTypes sampleAdapter (sampleEvent 3))
               @ [(LogWarn, EmittingAnyway (sampleEvent 1) 1 4)])
        (logged (foldl (addToEventQueue sampleTypes) sampleAdapter [sampleEvent 3, sampleEvent 1]))
   \<and> prefix (logged (foldl (addToEventQueue sampleTypes) sampleAdapter [sampleEvent 3, sampleEvent 1])
               @ [(LogWarn, EmittingAnyway (sampleEvent 2) 2 4)])
        (logged (foldl (addToEventQueue sampleTypes) sampleAdapter
           [sampleEvent 3, sampleEvent 1, sampleEvent 2]))"
    using a m by blast
  have drop: "foldl (addToEventQueue sampleTypes) sampleAdapter [sampleEvent 3, QueuedRuntimeStateEvent 1 Busy]
       = addToEventQueue sampleTypes sampleAdapter (sampleEvent 3)"
    using b isMessageEvent.simps(2) [of 1 Busy] by blast
  show ?thesis
    using h1 h2 h3 h4 h5 h6 rest drop
      observable_fields(1) [OF a1] observable_fields(1) [OF a3] observable_fields(1) [OF b3]
    unfolding fired_dispatch_sampleEvents by simp
qed

section \<open>A comm closed twice\<close>

text \<open>
  Claim C9. When the Comm-closed message for a comm in \<^verbatim>\<open>_clients\<close> is delivered
  twice, the comm is in state \<open>Closed\<close> after the first delivery and after the
  second. The second delivery only fires \<open>Closed\<close> once more on the state emitter of
  the instance. Neither delivery logs anything or raises an error, and neither has
  a disposal side effect: no call on the proxy (no removal request), no change to
  the promises or to the pending RPCs, and the instance is not disposed.
\<close>

theorem comm_closed_twice:
  assumes "m_type message = CommClosed"
    and "map_of (clients s) (comm_id message) = Some r"
    and "r < length (heap s)"
  shows "let s1 = processMessage clientTypes s message;
             s2 = processMessage clientTypes s1 message
         in c_state (heap s1 ! r) = Closed
          \<and> c_state (heap s2 ! r) = Closed
          \<and> s2 = onClient s1 r (\<lambda>c. c\<lparr> c_stateFired := c_stateFired c @ [Closed] \<rparr>)
          \<and> logged s2 = logged s
          \<and> proxyCalls s2 = proxyCalls s
          \<and> c_proxyCalls (heap s2 ! r) = c_proxyCalls (heap s ! r)
          \<and> c_promises (heap s2 ! r) = c_promises (heap s ! r)
          \<and> c_pendingRpcs (heap s2 ! r) = c_pendingRpcs (heap s ! r)
          \<and> c_disposed (heap s2 ! r) = c_disposed (heap s ! r)"
proof -
  define s1 where "s1 = processMessage clientTypes s message"
  define s2 where "s2 = processMessage clientTypes s1 message"
  have s1_eq: "s1 = onClient s r (\<lambda>c. setClientState c Closed)"
    using assms by (simp add: s1_def processMessage_def emitClientState_def)
  have s2_eq: "s2 = onClient s1 r (\<lambda>c. setClientState c Closed)"
    using assms by (simp add: s2_def s1_eq processMessage_def emitClientState_def)
  have len: "r < length (heap s1)"
    using assms by (simp add: s1_eq)
  have h1: "heap s1 ! r = setClientState (heap s ! r) Closed"
    using assms by (simp add: s1_eq heap_onClient)
  have h2: "heap s2 ! r = setClientState (heap s1 ! r) Closed"
    using len by (simp add: s2_eq heap_onClient)
  have again: "setClientState (heap s1 ! r) Closed
                 = (heap s1 ! r)\<lparr> c_stateFired := c_stateFired (heap s1 ! r) @ [Closed] \<rparr>"
    by (simp add: h1 setClientState_def client_stateEmitter_fire_def)
  have c1: "c_state (heap s1 ! r) = Closed" and c2: "c_state (heap s2 ! r) = Closed"
    by (simp_all add: h1 h2)
  have c3: "s2 = onClient s1 r (\<lambda>c. c\<lparr> c_stateFired := c_stateFired c @ [Closed] \<rparr>)"
    by (simp add: s2_eq onClient_def again)
  have c4: "logged s2 = logged s" and c5: "proxyCalls s2 = proxyCalls s"
    by (simp_all add: s2_eq s1_eq)
  have c6: "c_proxyCalls (heap s2 ! r) = c_proxyCalls (heap s ! r)"
    and c7: "c_promises (heap s2 ! r) = c_promises (heap s ! r)"
    and c8: "c_pendingRpcs (heap s2 ! r) = c_pendingRpcs (heap s ! r)"
    and c9: "c_disposed (heap s2 ! r) = c_disposed (heap s ! r)"
    by (simp_all add: h1 h2)
  from c1 c2 c3 c4 c5 c6 c7 c8 c9 show ?thesis
    unfolding Let_def s1_def [symmetric] s2_def [symmetric] by blast
qed

theorem comm_closed_twice_witness:
  "m_type (sampleMessage CommClosed 2 ''c1'') = CommClosed
   \<and> map_of (clients sampleOpened) (comm_id (sampleMessage CommClosed 2 ''c1'')) = Some 0
   \<and> 0 < length (heap sampleOpened)
   \<and> c_state (heap sampleOpened ! 0) = Connected
   \<and> c_state (heap (processMessage sampleTypes sampleOpened (sampleMessage CommClosed 2 ''c1'')) ! 0)
        = Closed
   \<and> c_state (heap (processMessage sampleTypes
        (processMessage sampleTypes sampleOpened (sampleMessage CommClosed 2 ''c1''))
        (sampleMessage CommClosed 2 ''c1'')) ! 0) = Closed
   \<and> logged (processMessage sampleTypes
        (processMessage sampleTypes sampleOpened (sampleMessage CommClosed 2 ''c1''))
        (sampleMessage CommClosed 2 ''c1'')) = []
   \<and> proxyCalls (processMessage sampleTypes
        (processMessage sampleTypes sampleOpened (sampleMessage CommClosed 2 ''c1''))
        (sampleMessage CommClosed 2 ''c1'')) = []
   \<and> c_proxyCalls (heap (processMessage sampleTypes
        (processMessage sampleTypes sampleOpened (sampleMessage CommClosed 2 ''c1''))
        (sampleMessage CommClosed 2 ''c1'')) ! 0) = []"
proof -
  let ?m = "sampleMessage CommClosed 2 ''c1''"
  have h1: "m_type ?m = CommClosed" and h2: "map_of (clients sampleOpened) (comm_id ?m) = Some 0"
    and h3: "0 < length (heap sampleOpened)"
    and h4: "c_state (heap sampleOpened ! 0) = Connected"
    and h5: "logged sampleOpened = []" "proxyCalls sampleOpened = []"
       "c_proxyCalls (heap sampleOpened ! 0) = []"
    by (simp_all add: sampleOpened_eq sampleMessage_def new_client_def setClientState_def
          client_stateEmitter_fire_def)
  note r = comm_closed_twice [OF h1 h2 h3, where clientTypes = sampleTypes, unfolded Let_def]
  have c1: "c_state (heap (processMessage sampleTypes sampleOpened ?m) ! 0) = Closed"
    and c2: "c_state (heap (processMessage sampleTypes (processMessage sampleTypes sampleOpened ?m) ?m) ! 0)
               = Closed"
    and c3: "logged (processMessage sampleTypes (processMessage sampleTypes sampleOpened ?m) ?m)
               = logged sampleOpened"
    and c4: "proxyCalls (processMessage sampleTypes (processMessage sampleTypes sampleOpened ?m) ?m)
               = proxyCalls sampleOpened"
    and c5: "c_proxyCalls (heap (processMessage sampleTypes (processMessage sampleTypes sampleOpened ?m) ?m) ! 0)
               = c_proxyCalls (heap sampleOpened ! 0)"
    using r by blast+
  show ?thesis
    by (simp only: h1 h2 h3 h4 h5 c1 c2 c3 c4 c5 simp_thms)
qed

section \<open>The runtime exits\<close>

lemma closeIfConnected_keeps:
  "q \<noteq> r \<or> c_state (heap s ! q) \<noteq> Connected \<Longrightarrow> heap (closeIfConnected s r) ! q = heap s ! q"
  by (auto simp add: closeIfConnected_def heap_onClient getClientState_def)

lemma closeIfConnected_closes:
  "r < length (heap s) \<Longrightarrow> c_state (heap s ! r) = Connected \<Longrightarrow>
   heap (closeIfConnected s r) ! r = dispose (setClientState (setClientState (heap s ! r) Closing) Closed)"
  by (simp add: closeIfConnected_def heap_onClient getClientState_def)

lemma exit_loop_keeps:
  "c_state (heap s ! q) \<noteq> Connected \<Longrightarrow> heap (foldl closeIfConnected s rs) ! q = heap s ! q"
proof (induction rs arbitrary: s)
  case Nil
  show ?case by simp
next
  case (Cons x rs)
  have same: "heap (closeIfConnected s x) ! q = heap s ! q"
    using Cons.prems by (simp add: closeIfConnected_keeps)
  with Cons.prems have "heap (foldl closeIfConnected (closeIfConnected s x) rs) ! q
      = heap (closeIfConnected s x) ! q"
    by (intro Cons.IH) simp
  with same show ?case by simp
qed

lemma exit_loop_closes:
  assumes "r \<in> set rs" and "r < length (heap s)" and "c_state (heap s ! r) = Connected"
  shows "heap (foldl closeIfConnected s rs) ! r
           = dispose (setClientState (setClientState (heap s ! r) Closing) Closed)"
  using assms
proof (induction rs arbitrary: s)
  case Nil
  then show ?case by simp
next
  case (Cons x rs)
  show ?case
  proof (cases "x = r")
    case True
    have closed: "heap (closeIfConnected s r) ! r
                    = dispose (setClientState (setClientState (heap s ! r) Closing) Closed)"
      using Cons.prems by (simp add: closeIfConnected_closes)
    then have "c_state (heap (closeIfConnected s r) ! r) \<noteq> Connected"
      by simp
    then have "heap (foldl closeIfConnected (closeIfConnected s r) rs) ! r
                 = heap (closeIfConnected s r) ! r"
      by (rule exit_loop_keeps)
    with closed True show ?thesis by simp
  next
    case False
    then have same: "heap (closeIfConnected s x) ! r = heap s ! r"
      by (simp add: closeIfConnected_keeps)
    from False Cons.prems have "r \<in> set rs" by auto
    then have "heap (foldl closeIfConnected (closeIfConnected s x) rs) ! r
        = dispose (setClientState (setClientState (heap (closeIfConnected s x) ! r) Closing) Closed)"
      using Cons.prems same by (intro Cons.IH) simp_all
    with same show ?thesis by simp
  qed
qed

text \<open>
  Claim C3 says that when the adapter observes the state \<open>Exited\<close>, every instance
  in \<^verbatim>\<open>_clients\<close> that is still open is taken through \<open>Closing\<close> to \<open>Closed\<close> and
  disposed, and the map is emptied. The listener does this to the instances whose
  state is \<open>Connected\<close> only. An instance that \<^verbatim>\<open>createClient\<close> has just made is still
  \<open>Opening\<close>: after the exit it is \<open>Opening\<close> as before, it has fired no further
  state, it is not disposed, and the map no longer holds it.
\<close>

theorem exited_leaves_opening_comm:
  "map_of (clients sampleCreated) ''positron-environment-python-0-ff'' = Some 0
   \<and> getClientState (heap sampleCreated ! 0) = Opening
   \<and> getClientState (heap (adapter_stateEmitter_fire sampleCreated Exited) ! 0) = Opening
   \<and> c_stateFired (heap (adapter_stateEmitter_fire sampleCreated Exited) ! 0) = [Opening]
   \<and> \<not> c_disposed (heap (adapter_stateEmitter_fire sampleCreated Exited) ! 0)
   \<and> clients (adapter_stateEmitter_fire sampleCreated Exited) = []"
  by (simp add: sampleCreated_eq(2) adapter_stateEmitter_fire_def onDidChangeRuntimeState_def
        closeIfConnected_def getClientState_def new_client_def setClientState_def
        client_stateEmitter_fire_def)

text \<open>
  Claim C3, amended. When the adapter observes the state \<open>Exited\<close>, the map
  \<^verbatim>\<open>_clients\<close> is emptied, and every instance that was in it ends as follows: one in
  state \<open>Connected\<close> as the result of \<^verbatim>\<open>setClientState(Closing)\<close>,
  \<^verbatim>\<open>setClientState(Closed)\<close> and \<^verbatim>\<open>dispose()\<close>, so that it is \<open>Closed\<close>, has fired
  \<open>Closing\<close> and then \<open>Closed\<close>, and is disposed; one in any other state unchanged.
\<close>

theorem exited_closes_connected_comms:
  assumes "(ident, r) \<in> set (clients s)" and "r < length (heap s)"
  shows "clients (adapter_stateEmitter_fire s Exited) = []
       \<and> getRuntimeState (adapter_stateEmitter_fire s Exited) = Exited
       \<and> (getClientState (heap s ! r) = Connected \<longrightarrow>
            heap (adapter_stateEmitter_fire s Exited) ! r
              = dispose (setClientState (setClientState (heap s ! r) Closing) Closed)
          \<and> getClientState (heap (adapter_stateEmitter_fire s Exited) ! r) = Closed
          \<and> c_stateFired (heap (adapter_stateEmitter_fire s Exited) ! r)
              = c_stateFired (heap s ! r) @ [Closing, Closed]
          \<and> c_disposed (heap (adapter_stateEmitter_fire s Exited) ! r))
       \<and> (getClientState (heap s ! r) \<noteq> Connected \<longrightarrow>
            heap (adapter_stateEmitter_fire s Exited) ! r = heap s ! r)"
proof -
  let ?t = "s\<lparr> fired := fired s @ [DidChangeRuntimeState Exited], currentState := Exited \<rparr>"
  have fire: "adapter_stateEmitter_fire s Exited
                = (foldl closeIfConnected ?t (map snd (clients s)))\<lparr> clients := [] \<rparr>"
    by (simp add: adapter_stateEmitter_fire_def onDidChangeRuntimeState_def)
  have mem: "r \<in> set (map snd (clients s))"
    using assms(1) by force
  have closes: "heap (adapter_stateEmitter_fire s Exited) ! r
          = dispose (setClientState (setClientState (heap s ! r) Closing) Closed)"
    if "getClientState (heap s ! r) = Connected"
  proof -
    have "heap (foldl closeIfConnected ?t (map snd (clients s))) ! r
          = dispose (setClientState (setClientState (heap ?t ! r) Closing) Closed)"
      using mem assms(2) that by (intro exit_loop_closes) (simp_all add: getClientState_def)
    then show ?thesis by (simp add: fire)
  qed
  have keeps: "heap (adapter_stateEmitter_fire s Exited) ! r = heap s ! r"
    if "getClientState (heap s ! r) \<noteq> Connected"
  proof -
    have "heap (foldl closeIfConnected ?t (map snd (clients s))) ! r = heap ?t ! r"
      using that by (intro exit_loop_keeps) (simp add: getClientState_def)
    then show ?thesis by (simp add: fire)
  qed
  have c1: "clients (adapter_stateEmitter_fire s Exited) = []"
    and c2: "getRuntimeState (adapter_stateEmitter_fire s Exited) = Exited"
    by (simp_all add: fire getRuntimeState_def)
  from c1 c2 closes keeps show ?thesis
    by (simp add: getClientState_def dispose_state)
qed

theorem exited_closes_connected_comms_witness:
  "(''c1'', 0) \<in> set (clients sampleOpened) \<and> 0 < length (heap sampleOpened)
   \<and> getClientState (heap sampleOpened ! 0) = Connected
   \<and> clients (adapter_stateEmitter_fire sampleOpened Exited) = []
   \<and> getRuntimeState (adapter_stateEmitter_fire sampleOpened Exited) = Exited
   \<and> getClientState (heap (adapter_stateEmitter_fire sampleOpened Exited) ! 0) = Closed
   \<and> c_stateFired (heap (adapter_stateEmitter_fire sampleOpened Exited) ! 0)
        = [Connected, Closing, Closed]
   \<and> c_disposed (heap (adapter_stateEmitter_fire sampleOpened Exited) ! 0)
   \<and> (''positron-environment-python-0-ff'', 0) \<in> set (clients sampleCreated)
   \<and> 0 < length (heap sampleCreated)
   \<and> getClientState (heap sampleCreated ! 0) \<noteq> Connected
   \<and> heap (adapter_stateEmitter_fire sampleCreated Exited) ! 0 = heap sampleCreated ! 0"
proof -
  have h1: "(''c1'', 0) \<in> set (clients sampleOpened)" and h2: "0 < length (heap sampleOpened)"
    and h3: "getClientState (heap sampleOpened ! 0) = Connected"
    and h4: "c_stateFired (heap sampleOpened ! 0) = [Connected]"
    by (simp_all add: sampleOpened_eq getClientState_def new_client_def)
  have g1: "(''positron-environment-python-0-ff'', 0) \<in> set (clients sampleCreated)"
    and g2: "0 < length (heap sampleCreated)"
    and g3: "getClientState (heap sampleCreated ! 0) \<noteq> Connected"
    by (simp_all add: sampleCreated_eq(2) getClientState_def)
  show ?thesis
    using h1 h2 h3 h4 g1 g2 g3
      exited_closes_connected_comms [OF h1 h2] exited_closes_connected_comms [OF g1 g2]
    by (simp add: getClientState_def dispose_state)
qed

section \<open>Closed comms and the client map\<close>

text \<open>
  Claim C7 says that a comm whose state reaches \<open>Closed\<close> is removed from
  \<^verbatim>\<open>_clients\<close>. The callback for a failed \<^verbatim>\<open>$createClient\<close> does remove it, and so
  does the exit of the runtime, but the Comm-closed message does not: after the
  runtime opens the comm \<open>c1\<close> and then closes it, the instance is \<open>Closed\<close> and
  \<^verbatim>\<open>_clients\<close> still maps \<open>c1\<close> to it.
\<close>

theorem closed_comm_stays_registered:
  "map_of (clients sampleOpened) ''c1'' = Some 0
   \<and> getClientState (heap sampleOpened ! 0) = Connected
   \<and> getClientState (heap (handleRuntimeMessage sampleTypes sampleOpened
        (sampleMessage CommClosed 2 ''c1'')) ! 0) = Closed
   \<and> map_of (clients (handleRuntimeMessage sampleTypes sampleOpened
        (sampleMessage CommClosed 2 ''c1''))) ''c1'' = Some 0"
  by (simp add: sampleOpened_eq)
     (simp add: sample_defs handleRuntimeMessage_def addToEventQueue_def processEventQueue_def
        handleQueuedEvent_def handOn_def processMessage_def emitClientState_def onClient_def
        getClientState_def Let_def)

section \<open>Pending RPCs\<close>

text \<open>
  Claim C2 says that the promise of \<^verbatim>\<open>performRpc\<close> is settled by the response, by
  the timeout or by \<^verbatim>\<open>dispose\<close>, and that each of the three removes the message id
  from \<^verbatim>\<open>_pendingRpcs\<close>. The response and the timeout do; \<^verbatim>\<open>dispose\<close> rejects the
  promise and leaves the entry in the map, and the timeout that fires later
  returns early on the settled promise, so the entry is never removed. Below, a
  connected instance performs an RPC under the id \<open>m1\<close>: the entry is there and the
  promise is pending; after \<^verbatim>\<open>dispose\<close> the promise is rejected and the entry is
  still there, also once the timeout has fired, whereas the timeout or a response
  on the instance before it is disposed empties the map.
\<close>

theorem dispose_keeps_pending_entry:
  "map_of (c_pendingRpcs (fst sampleRpc)) ''m1'' = Some (snd sampleRpc)
   \<and> c_promises (fst sampleRpc) ! snd sampleRpc = None
   \<and> c_promises (dispose (fst sampleRpc)) ! snd sampleRpc
        = Some (Rejected RuntimeExitedBeforeRpcCompleted)
   \<and> map_of (c_pendingRpcs (dispose (fst sampleRpc))) ''m1'' = Some (snd sampleRpc)
   \<and> map_of (c_pendingRpcs (performRpc_timeout (dispose (fst sampleRpc)) (snd sampleRpc)
        ''m1'' ''{op:x}'')) ''m1'' = Some (snd sampleRpc)
   \<and> c_pendingRpcs (performRpc_timeout (fst sampleRpc) (snd sampleRpc) ''m1'' ''{op:x}'') = []
   \<and> c_pendingRpcs (emitData (fst sampleRpc)
        ((sampleMessage CommData 3 ''c1'')\<lparr> parent_id := ''m1'' \<rparr>)) = []"
  by (simp add: sampleRpc_def performRpc_def Let_def new_client_def setClientState_def
        client_stateEmitter_fire_def dispose_def cancelPendingRpcs_def error_def
        performRpc_timeout_def isSettled_def emitData_def sampleMessage_def complete_def)

section \<open>The observed clock\<close>

text \<open>
  Claim C8. Over the life of a session, from the constructor on, \<^verbatim>\<open>_eventClock\<close>
  never decreases: whatever has happened so far (\<open>actions\<close>) and whatever happens next
  (\<open>further\<close>: events submitted in order, deferred or late, the queue timer, calls of
  the consumer, callbacks), the clock afterwards is at least the clock before.
  (Within one flush, \<open>flush_loop_never_back\<close> says the same of the loop.)
\<close>

theorem observed_clock_never_decreases:
  "eventClock (run clientTypes (new_adapter h lang name) actions)
     \<le> eventClock (run clientTypes (new_adapter h lang name) (actions @ further))"
proof -
  have "queueAhead (new_adapter h lang name)"
    by (simp add: queueAhead_def new_adapter_def)
  then have "queueAhead (run clientTypes (new_adapter h lang name) actions)"
    using run_clock by blast
  then have "eventClock (run clientTypes (new_adapter h lang name) actions)
      \<le> eventClock (run clientTypes (run clientTypes (new_adapter h lang name) actions) further)"
    using run_clock by blast
  then show ?thesis by (simp add: run_def)
qed

theorem observed_clock_never_decreases_witness:
  "eventClock (run sampleTypes (new_adapter 1 ''python'' ''Python'')
      [Message (sampleMessage Stream 1 []), Message (sampleMessage Stream 4 [])])
   \<le> eventClock (run sampleTypes (new_adapter 1 ''python'' ''Python'')
      ([Message (sampleMessage Stream 1 []), Message (sampleMessage Stream 4 [])]
        @ [Message (sampleMessage Stream 2 []), Message (sampleMessage Stream 3 [])]))"
  by (rule observed_clock_never_decreases)

section \<open>The order of delivery\<close>

lemma sorted_key_le_last:
  "sorted (map f xs) \<Longrightarrow> x \<in> set xs \<Longrightarrow> f x \<le> f (last xs)"
  by (induction xs) auto

lemma filter_same_key:
  "distinct (map f xs) \<Longrightarrow> k \<in> set xs \<Longrightarrow> filter (\<lambda>x. f k = f x) xs = [k]"
proof (induction xs)
  case Nil
  then show ?case by simp
next
  case (Cons a xs)
  show ?case
  proof (cases "k = a")
    case True
    with Cons.prems have "\<forall>x\<in>set xs. f a \<noteq> f x" by auto
    then have "filter (\<lambda>x. f a = f x) xs = []" by (simp add: filter_empty_conv)
    with True show ?thesis by simp
  next
    case False
    with Cons.prems have kx: "k \<in> set xs" by auto
    from Cons.prems(1) have "f a \<notin> f ` set xs" by simp
    with kx have "f k \<noteq> f a" by (metis imageI)
    with Cons kx show ?thesis by simp
  qed
qed

lemma sorted_distinct_keys_unique:
  assumes "mset ys = mset xs" and "sorted (map f ys)" and "distinct (map f xs)"
  shows "sort_key f xs = ys"
proof (rule properties_for_sort_key [OF assms(1) _ assms(2)])
  fix k assume k: "k \<in> set ys"
  have "mset (map f ys) = mset (map f xs)" using assms(1) by simp
  then have dy: "distinct (map f ys)" using assms(3) mset_eq_imp_distinct_iff by blast
  have kx: "k \<in> set xs" using k assms(1) mset_eq_setD by blast
  show "filter (\<lambda>x. f k = f x) ys = filter (\<lambda>x. f k = f x) xs"
    by (simp add: filter_same_key [OF dy k] filter_same_key [OF assms(3) kx])
qed

lemma sorted_sort_key_map: "sorted (map f (sort_key f xs))"
  by (induction xs) (simp_all add: sorted_insort_key)

lemma timeout_delivers:
  assumes "queueAhead s" and "eventQueue s \<noteq> [] \<longrightarrow> eventQueueTimer s"
  shows "delivered (eventQueueTimeout tys s) = delivered s @ sort_key clock (eventQueue s)"
proof (cases "eventQueueTimer s")
  case True
  then show ?thesis by (simp add: eventQueueTimeout_def processEventQueue_fields)
next
  case False
  with assms have "eventQueue s = []" by blast
  with False show ?thesis by (simp add: eventQueueTimeout_def)
qed

lemma batch_dispatched:
  assumes "queueAhead s" and "eventQueue s \<noteq> [] \<longrightarrow> eventQueueTimer s" and "noLate tys s events"
  shows "\<exists>D. observable (eventQueueTimeout tys (foldl (addToEventQueue tys) s events))
              = observable (foldl (dispatch_spec tys) s D)
            \<and> delivered (eventQueueTimeout tys (foldl (addToEventQueue tys) s events)) = delivered s @ D
            \<and> mset D = mset (eventQueue s) + mset events
            \<and> sorted (map clock D)
            \<and> (\<forall>d\<in>set D. eventClock s \<le> clock d)"
  using assms
proof (induction events arbitrary: s)
  case Nil
  let ?D = "sort_key clock (eventQueue s)"
  have "observable (eventQueueTimeout tys s) = observable (foldl (dispatch_spec tys) s ?D)"
    using Nil.prems(2) by (rule timeout_dispatch)
  moreover have "delivered (eventQueueTimeout tys s) = delivered s @ ?D"
    using Nil.prems by (intro timeout_delivers) simp_all
  moreover have "\<forall>d\<in>set ?D. eventClock s \<le> clock d"
    using Nil.prems(1) by (simp add: queueAhead_def list_all_iff)
  ultimately show ?case
    using sorted_sort_key_map [of clock "eventQueue s"] by auto
next
  case (Cons e events)
  from Cons.prems(3) have le: "eventClock s \<le> clock e"
    and rest: "noLate tys (addToEventQueue tys s e) events" by simp_all
  let ?s' = "addToEventQueue tys s e"
  let ?final = "eventQueueTimeout tys (foldl (addToEventQueue tys) ?s' events)"
  have ahead': "queueAhead ?s'" and mono: "eventClock s \<le> eventClock ?s'"
    using addToEventQueue_clock [OF Cons.prems(1), of tys e] by simp_all
  show ?case
  proof (cases "clock e = eventClock s + 1 \<or> eventClock s = 0")
    case True
    let ?B = "sort_key clock (eventQueue s @ [e])"
    have q': "eventQueue ?s' = []" and c': "eventClock ?s' = clock (last ?B)"
      and d': "delivered ?s' = delivered s @ ?B"
      by (simp_all add: addToEventQueue_flush_fields [OF le True])
    have o': "observable ?s' = observable (foldl (dispatch_spec tys) s ?B)"
      by (rule addToEventQueue_flush_dispatch [OF le True])
    from Cons.IH [OF ahead' _ rest] q'
    obtain D where D: "observable ?final = observable (foldl (dispatch_spec tys) ?s' D)"
      "delivered ?final = delivered ?s' @ D"
      "mset D = mset events" "sorted (map clock D)" "\<forall>d\<in>set D. eventClock ?s' \<le> clock d"
      by auto
    have B_low: "\<forall>b\<in>set ?B. eventClock s \<le> clock b"
      using Cons.prems(1) le by (auto simp add: queueAhead_def list_all_iff)
    have B_high: "\<forall>b\<in>set ?B. clock b \<le> eventClock ?s'"
      unfolding c' using sorted_sort_key_map [of clock "eventQueue s @ [e]"]
      by (auto intro: sorted_key_le_last)
    have "sorted (map clock (?B @ D))"
      using sorted_sort_key_map [of clock "eventQueue s @ [e]"] D(4,5) B_high
      by (fastforce simp add: sorted_append)
    moreover have "\<forall>d\<in>set (?B @ D). eventClock s \<le> clock d"
      using B_low D(5) mono by fastforce
    moreover have "mset (?B @ D) = mset (eventQueue s) + mset (e # events)"
      using D(3) by simp
    moreover have "observable (eventQueueTimeout tys (foldl (addToEventQueue tys) s (e # events)))
                     = observable (foldl (dispatch_spec tys) s (?B @ D))"
      using D(1) foldl_dispatch_spec_cong [OF o', of tys D] by simp
    moreover have "delivered (eventQueueTimeout tys (foldl (addToEventQueue tys) s (e # events)))
                     = delivered s @ (?B @ D)"
      using D(2) d' by simp
    ultimately show ?thesis by blast
  next
    case False
    then have ne: "clock e \<noteq> eventClock s + 1" "eventClock s \<noteq> 0" by simp_all
    note dfr = addToEventQueue_defer [OF le ne, of tys]
    have o': "observable ?s' = observable s"
      by (rule addToEventQueue_defer_dispatch [OF le ne])
    from Cons.IH [OF ahead' _ rest] dfr
    obtain D where D: "observable ?final = observable (foldl (dispatch_spec tys) ?s' D)"
      "delivered ?final = delivered ?s' @ D"
      "mset D = mset (eventQueue ?s') + mset events" "sorted (map clock D)"
      "\<forall>d\<in>set D. eventClock ?s' \<le> clock d"
      by auto
    have "observable (eventQueueTimeout tys (foldl (addToEventQueue tys) s (e # events)))
            = observable (foldl (dispatch_spec tys) s D)"
      using D(1) foldl_dispatch_spec_cong [OF o', of tys D] by simp
    moreover have "delivered (eventQueueTimeout tys (foldl (addToEventQueue tys) s (e # events)))
                     = delivered s @ D"
      using D(2) dfr by simp
    moreover have "mset D = mset (eventQueue s) + mset (e # events)"
      using D(3) dfr by simp
    moreover have "\<forall>d\<in>set D. eventClock s \<le> clock d"
      using D(5) dfr by simp
    ultimately show ?thesis using D(4) by blast
  qed
qed

text \<open>
  Claim C1 says that events with distinct clocks, all submitted before the recovery
  timer fires, are dispatched to subscribers in ascending clock order whatever the
  order of submission. The stream messages with clocks 1, 4, 2, 3 refute it: 1 is
  fired at once, 4 is deferred, 2 is the next tick and flushes the whole backlog,
  so 4 is fired with it, and 3 then arrives below the clock and is fired late,
  after 4. The subscribers of the stream emitter see 1, 2, 4, 3, which is not what
  a dispatch in ascending clock order shows them.
\<close>

theorem out_of_order_delivery:
  "distinct (map clock [sampleEvent 1, sampleEvent 4, sampleEvent 2, sampleEvent 3])
   \<and> fired (eventQueueTimeout sampleTypes (foldl (addToEventQueue sampleTypes) sampleAdapter
        [sampleEvent 1, sampleEvent 4, sampleEvent 2, sampleEvent 3]))
      = [DidReceiveRuntimeMessageStream (sampleMessage Stream 1 []),
         DidReceiveRuntimeMessageStream (sampleMessage Stream 2 []),
         DidReceiveRuntimeMessageStream (sampleMessage Stream 4 []),
         DidReceiveRuntimeMessageStream (sampleMessage Stream 3 [])]
   \<and> sort_key clock [sampleEvent 1, sampleEvent 4, sampleEvent 2, sampleEvent 3]
      = [sampleEvent 1, sampleEvent 2, sampleEvent 3, sampleEvent 4]
   \<and> fired (foldl (dispatch_spec sampleTypes) sampleAdapter
        (sort_key clock [sampleEvent 1, sampleEvent 4, sampleEvent 2, sampleEvent 3]))
      = [DidReceiveRuntimeMessageStream (sampleMessage Stream 1 []),
         DidReceiveRuntimeMessageStream (sampleMessage Stream 2 []),
         DidReceiveRuntimeMessageStream (sampleMessage Stream 3 []),
         DidReceiveRuntimeMessageStream (sampleMessage Stream 4 [])]
   \<and> observable (eventQueueTimeout sampleTypes (foldl (addToEventQueue sampleTypes) sampleAdapter
        [sampleEvent 1, sampleEvent 4, sampleEvent 2, sampleEvent 3]))
      \<noteq> observable (foldl (dispatch_spec sampleTypes) sampleAdapter
           (sort_key clock [sampleEvent 1, sampleEvent 4, sampleEvent 2, sampleEvent 3]))
   \<and> delivered (eventQueueTimeout sampleTypes (foldl (addToEventQueue sampleTypes) sampleAdapter
        [sampleEvent 1, sampleEvent 4, sampleEvent 2, sampleEvent 3]))
      = [sampleEvent 1, sampleEvent 2, sampleEvent 4, sampleEvent 3]"
proof -
  define s1 where "s1 = addToEventQueue sampleTypes sampleAdapter (sampleEvent 1)"
  define s2 where "s2 = addToEventQueue sampleTypes s1 (sampleEvent 4)"
  define s3 where "s3 = addToEventQueue sampleTypes s2 (sampleEvent 2)"
  define s4 where "s4 = addToEventQueue sampleTypes s3 (sampleEvent 3)"
  let ?S = "\<lambda>c. DidReceiveRuntimeMessageStream (sampleMessage Stream c [])"
  have f1: "delivered s1 = [sampleEvent 1]" "eventClock s1 = 1" "eventQueue s1 = []"
    "eventQueueTimer s1 = False"
    unfolding s1_def by (simp_all add: addToEventQueue_flush_fields)
  have "observable s1 = observable (foldl (dispatch_spec sampleTypes) sampleAdapter (map sampleEvent [1]))"
    unfolding s1_def using addToEventQueue_flush_dispatch [of sampleAdapter "sampleEvent 1" sampleTypes]
    by simp
  from observable_fields(1) [OF this] have o1: "fired s1 = [?S 1]"
    unfolding fired_dispatch_sampleEvents by simp
  have f2: "delivered s2 = [sampleEvent 1]" "eventClock s2 = 1" "eventQueue s2 = [sampleEvent 4]"
    "eventQueueTimer s2"
    unfolding s2_def using addToEventQueue_defer [of s1 "sampleEvent 4" sampleTypes]
    by (simp_all add: f1)
  have "observable s2 = observable s1"
    unfolding s2_def by (rule addToEventQueue_defer_dispatch) (simp_all add: f1)
  from observable_fields(1) [OF this] have o2: "fired s2 = [?S 1]"
    by (simp add: o1)
  have f3: "delivered s3 = [sampleEvent 1, sampleEvent 2, sampleEvent 4]" "eventClock s3 = 4"
    "eventQueue s3 = []" "eventQueueTimer s3 = False"
    unfolding s3_def using addToEventQueue_flush_fields [of s2 "sampleEvent 2" sampleTypes]
    by (simp_all add: f2)
  have "observable s3 = observable (foldl (dispatch_spec sampleTypes) s2 (map sampleEvent [2, 4]))"
    unfolding s3_def using addToEventQueue_flush_dispatch [of s2 "sampleEvent 2" sampleTypes]
    by (simp add: f2)
  from observable_fields(1) [OF this] have o3: "fired s3 = [?S 1, ?S 2, ?S 4]"
    unfolding fired_dispatch_sampleEvents by (simp add: o2)
  have f4: "delivered s4 = [sampleEvent 1, sampleEvent 2, sampleEvent 4, sampleEvent 3]"
    "eventQueueTimer s4 = False"
    unfolding s4_def using late_sampleEvent [of 3 s3 sampleTypes]
    by (simp_all add: f3)
  have "observable s4 = observable (foldl (dispatch_spec sampleTypes) s3 (map sampleEvent [3]))"
    unfolding s4_def using late_message_dispatch [of 3 s3 sampleTypes "sampleMessage Stream 3 []"]
    by (simp add: f3 sampleEvent_def)
  from observable_fields(1) [OF this] have o4: "fired s4 = [?S 1, ?S 2, ?S 4, ?S 3]"
    unfolding fired_dispatch_sampleEvents by (simp add: o3)
  have run: "foldl (addToEventQueue sampleTypes) sampleAdapter
               [sampleEvent 1, sampleEvent 4, sampleEvent 2, sampleEvent 3] = s4"
    by (simp add: s1_def s2_def s3_def s4_def)
  have fin: "eventQueueTimeout sampleTypes s4 = s4"
    by (simp add: eventQueueTimeout_def f4)
  have srt: "sort_key clock [sampleEvent 1, sampleEvent 4, sampleEvent 2, sampleEvent 3]
               = map sampleEvent [1, 2, 3, 4]"
    by simp
  have asc: "fired (foldl (dispatch_spec sampleTypes) sampleAdapter (map sampleEvent [1, 2, 3, 4]))
               = [?S 1, ?S 2, ?S 3, ?S 4]"
    unfolding fired_dispatch_sampleEvents by simp
  have ne: "?S 4 \<noteq> ?S 3"
    by (simp add: sampleMessage_def)
  have differ: "observable s4
                  \<noteq> observable (foldl (dispatch_spec sampleTypes) sampleAdapter (map sampleEvent [1, 2, 3, 4]))"
    using observable_fields(1) [of s4 "foldl (dispatch_spec sampleTypes) sampleAdapter (map sampleEvent [1, 2, 3, 4])"]
      o4 asc ne by auto
  show ?thesis
    unfolding run fin srt using o4 asc differ f4(1) by simp
qed

text \<open>
  Claim C1, amended. Events with distinct clocks are submitted, with no timer firing
  in between, to an adapter whose queue is empty. If none of them is late on arrival
  (\<open>noLate\<close>: each clock is at least \<^verbatim>\<open>_eventClock\<close> at the moment the event is
  submitted), then once the recovery timer has fired, if it was armed, the events
  have been dispatched to the subscribers in ascending clock order, whatever the
  order of submission: the emitter traces, the comm instances, the registry, the
  runtime state and the proxy calls are those of \<open>dispatch_spec\<close> applied to the
  events one after the other in ascending clock order.
\<close>

theorem in_order_delivery:
  assumes "eventQueue s = []" and "distinct (map clock events)" and "noLate clientTypes s events"
  shows "observable (eventQueueTimeout clientTypes (foldl (addToEventQueue clientTypes) s events))
           = observable (foldl (dispatch_spec clientTypes) s (sort_key clock events))
       \<and> delivered (eventQueueTimeout clientTypes (foldl (addToEventQueue clientTypes) s events))
           = delivered s @ sort_key clock events"
proof -
  have "queueAhead s" using assms(1) by (simp add: queueAhead_def)
  from batch_dispatched [OF this _ assms(3)] assms(1)
  obtain D where D: "observable (eventQueueTimeout clientTypes (foldl (addToEventQueue clientTypes) s events))
                       = observable (foldl (dispatch_spec clientTypes) s D)"
    "delivered (eventQueueTimeout clientTypes (foldl (addToEventQueue clientTypes) s events))
                       = delivered s @ D"
    "mset D = mset events" "sorted (map clock D)"
    by auto
  have "sort_key clock events = D"
    using D(3,4) assms(2) by (rule sorted_distinct_keys_unique)
  with D(1,2) show ?thesis by simp
qed

theorem in_order_delivery_witness:
  "eventQueue sampleAdapter = []
   \<and> distinct (map clock [sampleEvent 1, sampleEvent 3, sampleEvent 2])
   \<and> noLate sampleTypes sampleAdapter [sampleEvent 1, sampleEvent 3, sampleEvent 2]
   \<and> fired (eventQueueTimeout sampleTypes (foldl (addToEventQueue sampleTypes) sampleAdapter
        [sampleEvent 1, sampleEvent 3, sampleEvent 2]))
      = [DidReceiveRuntimeMessageStream (sampleMessage Stream 1 []),
         DidReceiveRuntimeMessageStream (sampleMessage Stream 2 []),
         DidReceiveRuntimeMessageStream (sampleMessage Stream 3 [])]
   \<and> delivered (eventQueueTimeout sampleTypes (foldl (addToEventQueue sampleTypes) sampleAdapter
        [sampleEvent 1, sampleEvent 3, sampleEvent 2]))
      = [sampleEvent 1, sampleEvent 2, sampleEvent 3]"
proof -
  define s1 where "s1 = addToEventQueue sampleTypes sampleAdapter (sampleEvent 1)"
  define s2 where "s2 = addToEventQueue sampleTypes s1 (sampleEvent 3)"
  have f1: "eventClock s1 = 1" "eventQueue s1 = []"
    unfolding s1_def by (simp_all add: addToEventQueue_flush_fields)
  have f2: "eventClock s2 = 1"
    unfolding s2_def using addToEventQueue_defer [of s1 "sampleEvent 3" sampleTypes]
    by (simp_all add: f1)
  have h1: "eventQueue sampleAdapter = []" by simp
  have h2: "distinct (map clock [sampleEvent 1, sampleEvent 3, sampleEvent 2])" by simp
  have h3: "noLate sampleTypes sampleAdapter [sampleEvent 1, sampleEvent 3, sampleEvent 2]"
    by (simp add: s1_def [symmetric] s2_def [symmetric] f1 f2)
  have srt: "sort_key clock [sampleEvent 1, sampleEvent 3, sampleEvent 2] = map sampleEvent [1, 2, 3]"
    by simp
  note r = in_order_delivery [OF h1 h2 h3, unfolded srt]
  have "fired (eventQueueTimeout sampleTypes (foldl (addToEventQueue sampleTypes) sampleAdapter
          [sampleEvent 1, sampleEvent 3, sampleEvent 2]))
        = fired (foldl (dispatch_spec sampleTypes) sampleAdapter (map sampleEvent [1, 2, 3]))"
    using r by (intro observable_fields(1)) (rule conjunct1)
  then show ?thesis
    unfolding fired_dispatch_sampleEvents using h1 h2 h3 r by simp
qed

section \<open>Creating a client\<close>

lemma createClient_result:
  assumes "createClient s counter ty params randomNumber = (s1, client, counter')"
  shows "client = length (heap s)"
    and "heap s1 = heap s @ [setClientState (new_client (fst (generateClientId (languageId s) ty counter randomNumber)) ty (handle s)) Opening]"
    and "clients s1 = AList.update (fst (generateClientId (languageId s) ty counter randomNumber)) client (clients s)"
    and "proxyCalls s1 = proxyCalls s @ [ProxyCreateClient (handle s)
           (fst (generateClientId (languageId s) ty counter randomNumber)) ty params]"
  using assms
  by (auto simp add: createClient_def Let_def onClient_def logService_def split: prod.splits)

lemma new_client_fields [simp]:
  "c_id (new_client ident ty h) = ident"
  "c_state (new_client ident ty h) = ClientUninitialized"
  by (simp_all add: new_client_def)

lemma createClient_then_opening:
  assumes "r < length (heap t)" and "getClientState (heap t ! r) = Opening"
  shows "getClientState (heap (createClient_then t r) ! r) = Connected"
  using assms by (simp add: createClient_then_def heap_onClient getClientState_def)

lemma createClient_then_otherwise:
  assumes "getClientState (heap t ! r) \<noteq> Opening"
  shows "heap (createClient_then t r) = heap t"
  using assms by (simp add: createClient_then_def)

lemma createClient_catch_closed:
  assumes "r < length (heap t)"
  shows "getClientState (heap (createClient_catch t r err) ! r) = Closed"
  using assms by (simp add: createClient_catch_def Let_def heap_onClient getClientState_def)

lemma commClosed_closes:
  assumes "m_type m = CommClosed" and "map_of (clients t) (comm_id m) = Some r"
    and "r < length (heap t)"
  shows "getClientState (heap (processMessage tys t m) ! r) = Closed"
    and "getClientState (heap (createClient_then (processMessage tys t m) r) ! r) = Closed"
proof -
  have eq: "processMessage tys t m = onClient t r (\<lambda>c. setClientState c Closed)"
    using assms by (simp add: processMessage_def emitClientState_def)
  show 1: "getClientState (heap (processMessage tys t m) ! r) = Closed"
    using assms(3) by (simp add: eq heap_onClient getClientState_def)
  then have "getClientState (heap (processMessage tys t m) ! r) \<noteq> Opening" by simp
  from createClient_then_otherwise [OF this] 1
  show "getClientState (heap (createClient_then (processMessage tys t m) r) ! r) = Closed"
    by simp
qed

text \<open>
  Claim C6. \<^verbatim>\<open>createClient\<close> hands back, before any callback has run, an instance in
  state \<open>Opening\<close> that is registered in \<^verbatim>\<open>_clients\<close> under its id, and it has sent
  the creation request. In every later state \<open>t\<close> of the session: as long as the
  callback for the settled request has not run for this instance, the instance is
  not \<open>Connected\<close>; when that callback runs, the instance becomes \<open>Connected\<close> if it
  is still \<open>Opening\<close> and is left alone otherwise; the callback for a failed request
  makes it \<open>Closed\<close>; and a Comm-closed message for its id makes it \<open>Closed\<close>, which
  a later acknowledgement does not change.
\<close>

theorem createClient_lifecycle:
  assumes "createClient s counter ty params randomNumber = (s1, client, counter')"
  shows "let t = run clientTypes s1 actions
         in getClientState (heap s1 ! client) = Opening
          \<and> map_of (clients s1) (c_id (heap s1 ! client)) = Some client
          \<and> proxyCalls s1 = proxyCalls s @ [ProxyCreateClient (handle s) (c_id (heap s1 ! client)) ty params]
          \<and> (CreateSettled client \<notin> set actions \<longrightarrow> getClientState (heap t ! client) \<noteq> Connected)
          \<and> (getClientState (heap t ! client) = Opening \<longrightarrow>
                getClientState (heap (createClient_then t client) ! client) = Connected)
          \<and> (getClientState (heap t ! client) \<noteq> Opening \<longrightarrow> heap (createClient_then t client) = heap t)
          \<and> getClientState (heap (createClient_catch t client err) ! client) = Closed
          \<and> (m_type message = CommClosed \<and> map_of (clients t) (comm_id message) = Some client \<longrightarrow>
                getClientState (heap (processMessage clientTypes t message) ! client) = Closed
              \<and> getClientState (heap (createClient_then (processMessage clientTypes t message) client) ! client)
                  = Closed)"
proof -
  define t where "t = run clientTypes s1 actions"
  note res = createClient_result [OF assms]
  have obj: "heap s1 ! client = setClientState (new_client (fst (generateClientId (languageId s) ty counter randomNumber)) ty (handle s)) Opening"
    by (simp add: res)
  have c1: "getClientState (heap s1 ! client) = Opening"
    by (simp add: obj getClientState_def)
  have ident: "c_id (heap s1 ! client) = fst (generateClientId (languageId s) ty counter randomNumber)"
    by (simp add: obj)
  have c2: "map_of (clients s1) (c_id (heap s1 ! client)) = Some client"
    by (simp add: ident res(3) update_conv')
  have c3: "proxyCalls s1 = proxyCalls s @ [ProxyCreateClient (handle s) (c_id (heap s1 ! client)) ty params]"
    by (simp add: ident res(4))
  have alloc1: "keeps (\<lambda>c. True) client s1"
    by (simp add: keeps_def res)
  have "keeps (\<lambda>c. True) client t"
    unfolding t_def using stable_True _ alloc1 by (rule keeps_run) simp
  then have alloc: "client < length (heap t)"
    by (simp add: keeps_def)
  have c4: "getClientState (heap t ! client) \<noteq> Connected" if "CreateSettled client \<notin> set actions"
  proof -
    have "keeps (\<lambda>c. getClientState c \<noteq> Connected) client s1"
      using c1 by (simp add: keeps_def res)
    with that have "keeps (\<lambda>c. getClientState c \<noteq> Connected) client t"
      unfolding t_def by (intro keeps_run [OF stable_unconnected]) simp_all
    then show ?thesis by (simp add: keeps_def)
  qed
  note c5 = createClient_then_opening [OF alloc]
  note c6 = createClient_then_otherwise [of t client]
  note c7 = createClient_catch_closed [OF alloc, of err]
  note c8 = commClosed_closes [OF _ _ alloc, of message clientTypes]
  from c1 c2 c3 c4 c5 c6 c7 c8 show ?thesis
    unfolding Let_def t_def [symmetric] by blast
qed

theorem createClient_lifecycle_witness:
  "createClient sampleAdapter 0 ''positron.environment'' ''{}'' 255 = (sampleCreated, 0, 1)
   \<and> getClientState (heap sampleCreated ! 0) = Opening
   \<and> c_id (heap sampleCreated ! 0) = ''positron-environment-python-0-ff''
   \<and> CreateSettled 0 \<notin> set [Message (sampleMessage Stream 1 [])]
   \<and> getClientState (heap (run sampleTypes sampleCreated [Message (sampleMessage Stream 1 [])]) ! 0) = Opening
   \<and> getClientState (heap (createClient_then sampleCreated 0) ! 0) = Connected
   \<and> getClientState (heap (createClient_catch sampleCreated 0 ''refused'') ! 0) = Closed
   \<and> m_type (sampleMessage CommClosed 1 ''positron-environment-python-0-ff'') = CommClosed
   \<and> map_of (clients sampleCreated)
        (comm_id (sampleMessage CommClosed 1 ''positron-environment-python-0-ff'')) = Some 0
   \<and> getClientState (heap (processMessage sampleTypes sampleCreated
        (sampleMessage CommClosed 1 ''positron-environment-python-0-ff'')) ! 0) = Closed
   \<and> getClientState (heap (run sampleTypes sampleCreated
        [Message (sampleMessage CommClosed 1 ''positron-environment-python-0-ff'')]) ! 0) \<noteq> Opening
   \<and> heap (createClient_then (run sampleTypes sampleCreated
        [Message (sampleMessage CommClosed 1 ''positron-environment-python-0-ff'')]) 0)
      = heap (run sampleTypes sampleCreated
        [Message (sampleMessage CommClosed 1 ''positron-environment-python-0-ff'')])"
proof -
  let ?closed = "sampleMessage CommClosed 1 ''positron-environment-python-0-ff''"
  let ?t1 = "run sampleTypes sampleCreated [Message (sampleMessage Stream 1 [])]"
  let ?t2 = "run sampleTypes sampleCreated [Message ?closed]"
  note h = sampleCreated_eq(1)
  have t1: "heap ?t1 = heap sampleCreated"
    by (simp add: run_def handleRuntimeMessage_def sampleCreated_eq(2) sampleMessage_def
          addToEventQueue_def processEventQueue_def handleQueuedEvent_def handOn_def
          processMessage_def Let_def)
  have t2: "heap ?t2 = [setClientState (setClientState
              (new_client ''positron-environment-python-0-ff'' ''positron.environment'' 1) Opening) Closed]"
    by (simp add: run_def handleRuntimeMessage_def sampleCreated_eq(2) sampleMessage_def
          addToEventQueue_def processEventQueue_def handleQueuedEvent_def handOn_def
          processMessage_def emitClientState_def onClient_def Let_def)
  have a1: "CreateSettled 0 \<notin> set [Message (sampleMessage Stream 1 [])]" by simp
  have a2: "getClientState (heap sampleCreated ! 0) = Opening"
    by (simp add: sampleCreated_eq(2) getClientState_def)
  have a3: "m_type ?closed = CommClosed"
    and a4: "map_of (clients sampleCreated) (comm_id ?closed) = Some 0"
    by (simp_all add: sampleMessage_def sampleCreated_eq(2))
  have a5: "getClientState (heap ?t2 ! 0) \<noteq> Opening"
    by (simp add: t2 getClientState_def)
  have a6: "getClientState (heap ?t1 ! 0) = Opening"
    by (simp add: t1 a2)
  have id: "c_id (heap sampleCreated ! 0) = ''positron-environment-python-0-ff''"
    by (simp add: sampleCreated_eq(2))
  from createClient_lifecycle [OF h, where clientTypes = sampleTypes and actions = "[]"
         and err = "''refused''" and message = ?closed]
    createClient_lifecycle [OF h, where clientTypes = sampleTypes
         and actions = "[Message ?closed]" and err = "''refused''" and message = ?closed]
    h a1 a2 a3 a4 a5 a6 id
  show ?thesis
    by (simp add: Let_def run_def)
qed

end
